theory Spec2Isabelle
  imports Main
begin

section \<open>The command-line parser of strace.ebpf (cl\_parser.c)\<close>

text \<open>
  The development embeds \<^verbatim>\<open>cl_parser\<close> of \<^verbatim>\<open>src/cl_parser.c\<close>: the option
  table, the call of \<^verbatim>\<open>getopt_long\<close>, the \<^verbatim>\<open>switch\<close> over the option
  character and the code after the loop. Calls of \<^verbatim>\<open>exit\<close> are a result value of
  their own that carries the exit status and the state at the moment of the call; every
  message written is appended to an output trace.
\<close>

subsection \<open>C library routines used by the parser\<close>

text \<open>
  The C-locale character classes of \<^verbatim>\<open>ctype.h\<close>.
\<close>

definition isspace :: "char \<Rightarrow> bool" where
  "isspace c = (c = CHR 0x20 \<or> (9 \<le> (of_char c :: nat) \<and> (of_char c :: nat) \<le> 13))"

definition isdigit :: "char \<Rightarrow> bool" where
  "isdigit c = (48 \<le> (of_char c :: nat) \<and> (of_char c :: nat) \<le> 57)"

definition tolower :: "char \<Rightarrow> char" where
  "tolower c = (if 65 \<le> (of_char c :: nat) \<and> (of_char c :: nat) \<le> 90
                then char_of ((of_char c :: nat) + 32) else c)"

text \<open>
  \<^verbatim>\<open>strcasecmp\<close>: the difference of the first pair of characters that differ after
  lower-casing; the terminating NUL of a C string is the end of the list.
\<close>

fun strcasecmp :: "string \<Rightarrow> string \<Rightarrow> int" where
  "strcasecmp [] [] = 0"
| "strcasecmp [] (b # bs) = - of_char (tolower b)"
| "strcasecmp (a # as) [] = of_char (tolower a)"
| "strcasecmp (a # as) (b # bs) =
     (if tolower a = tolower b then strcasecmp as bs
      else of_char (tolower a) - of_char (tolower b))"

text \<open>
  \<^verbatim>\<open>atoi\<close> as the GNU C library defines it on a 64-bit target:
  \<^verbatim>\<open>(int) strtol (nptr, NULL, 10)\<close>. \<^verbatim>\<open>strtol\<close> skips white space, reads an
  optional sign and the longest run of decimal digits (none gives 0), and saturates at
  \<^verbatim>\<open>LONG_MIN\<close> and \<^verbatim>\<open>LONG_MAX\<close>; the conversion to \<^verbatim>\<open>int\<close> keeps the low
  32 bits, read as a signed number.
\<close>

definition LONG_MAX :: int where "LONG_MAX = 2 ^ 63 - 1"
definition LONG_MIN :: int where "LONG_MIN = - (2 ^ 63)"

fun digits_value :: "int \<Rightarrow> string \<Rightarrow> int" where
  "digits_value acc [] = acc"
| "digits_value acc (c # cs) =
     (if isdigit c then digits_value (acc * 10 + (of_char c - 48)) cs else acc)"

definition strtol10 :: "string \<Rightarrow> int" where
  "strtol10 s =
     (let t = dropWhile isspace s in
      case t of
        [] \<Rightarrow> 0
      | c # r \<Rightarrow>
          if c = CHR ''-'' then max LONG_MIN (- digits_value 0 r)
          else if c = CHR ''+'' then min LONG_MAX (digits_value 0 r)
          else min LONG_MAX (digits_value 0 t))"

definition int_of_long :: "int \<Rightarrow> int" where
  "int_of_long x = (x + 2 ^ 31) mod 2 ^ 32 - 2 ^ 31"

definition atoi :: "string \<Rightarrow> int" where
  "atoi s = int_of_long (strtol10 s)"

definition EXIT_SUCCESS :: int where "EXIT_SUCCESS = 0"
definition EXIT_FAILURE :: int where "EXIT_FAILURE = 1"

subsection \<open>Output trace\<close>

datatype stream = Stdout | Stderr

text \<open>
  The texts of the four \<^verbatim>\<open>INFO\<close> calls of the parser, in the order of the source.
\<close>

datatype info =
    Supported_expressions
  | Supported_sets_hint
  | Combine_sets_hint
  | Supported_formats

text \<open>
  One constructor for each message or listing the parser can emit: the three
  \<^verbatim>\<open>ERROR\<close> calls with their arguments, \<^verbatim>\<open>INFO\<close>, the listing routines with
  the stream (and, for \<^verbatim>\<open>get_sc_list\<close>, whether the filter \<^verbatim>\<open>is_a_sc\<close> is
  passed rather than \<^verbatim>\<open>NULL\<close>), and the diagnostics \<^verbatim>\<open>getopt_long\<close> writes to
  the error stream while \<^verbatim>\<open>opterr\<close> is non-zero.
\<close>

datatype event =
    ERROR_missing_argument
  | ERROR_wrong_pid string int
  | ERROR_unknown_option int
  | INFO info
  | Fprint_help stream
  | Fprint_trace_list stream
  | Get_sc_list stream bool
  | Print_syscalls_table stream
  | Getopt_invalid_option char
  | Getopt_requires_argument char
  | Getopt_long_ambiguous string
  | Getopt_long_unrecognized string
  | Getopt_long_no_argument_allowed string
  | Getopt_long_requires_argument string

subsection \<open>The option scanner: getopt\_long\<close>

datatype has_arg = no_argument | required_argument | optional_argument

text \<open>
  An entry of \<^verbatim>\<open>struct option\<close>. The \<^verbatim>\<open>flag\<close> member is 0 in every entry of the
  parser's table, so \<^verbatim>\<open>getopt_long\<close> returns \<^verbatim>\<open>val\<close>; the member is left out.
\<close>

record long_option =
  name :: string
  has_arg :: has_arg
  val :: int

text \<open>
  The state \<^verbatim>\<open>getopt_long\<close> keeps between calls: the documented globals and the
  position inside the argv element being scanned (\<^verbatim>\<open>__nextchar\<close>, here the
  characters of the element that are still to be read; empty when the pointer is
  \<^verbatim>\<open>NULL\<close> or at the terminating NUL).
\<close>

record getopt_data =
  optind :: nat
  opterr :: bool
  optopt :: int
  optarg :: "string option"
  nextchar :: string

definition getopt_initial :: getopt_data where
  "getopt_initial =
     \<lparr>optind = 1, opterr = True, optopt = of_char CHR ''?'', optarg = None, nextchar = []\<rparr>"

text \<open>
  \<^verbatim>\<open>strchr\<close> on the option string: the suffix that starts at the first occurrence of
  the character, empty when there is none (the character looked up is never NUL).
\<close>

definition strchr :: "string \<Rightarrow> char \<Rightarrow> string" where
  "strchr s c = dropWhile (\<lambda>x. x \<noteq> c) s"

definition NONOPTION_P :: "string \<Rightarrow> bool" where
  "NONOPTION_P a = (case a of [] \<Rightarrow> True | c # r \<Rightarrow> (if c = CHR ''-'' then r = [] else True))"

definition print_if :: "bool \<Rightarrow> event \<Rightarrow> event list" where
  "print_if b e = (if b then [e] else [])"

text \<open>
  The lookup of a long option name, as \<^verbatim>\<open>process_long_option\<close> of the GNU C library
  does it: the first entry with exactly this name; failing that, the first entry the name
  is a prefix of, unless a later such entry differs from it in \<^verbatim>\<open>has_arg\<close> or
  \<^verbatim>\<open>val\<close>, which makes the abbreviation ambiguous.
\<close>

datatype lookup = Found long_option | Ambiguous | Not_found

definition abbreviates :: "string \<Rightarrow> long_option \<Rightarrow> bool" where
  "abbreviates nm p = (take (length nm) (name p) = nm)"

definition find_long_option :: "long_option list \<Rightarrow> string \<Rightarrow> lookup" where
  "find_long_option longopts nm =
     (case filter (\<lambda>p. name p = nm) longopts of
        p # ps \<Rightarrow> Found p
      | [] \<Rightarrow>
          (case filter (abbreviates nm) longopts of
             [] \<Rightarrow> Not_found
           | p # ps \<Rightarrow>
               if list_ex (\<lambda>q. (has_arg q, val q) \<noteq> (has_arg p, val p)) ps
               then Ambiguous else Found p))"

definition process_long_option ::
  "string list \<Rightarrow> string \<Rightarrow> long_option list \<Rightarrow> bool \<Rightarrow> getopt_data
     \<Rightarrow> int \<times> getopt_data \<times> event list" where
  "process_long_option argv optstring longopts print_errors d =
     (let nm = takeWhile (\<lambda>c. c \<noteq> CHR ''='') (nextchar d);
          nameend = dropWhile (\<lambda>c. c \<noteq> CHR ''='') (nextchar d)
      in case find_long_option longopts nm of
           Ambiguous \<Rightarrow>
             (of_char CHR ''?'',
              d\<lparr>nextchar := [], optind := optind d + 1, optopt := 0\<rparr>,
              print_if print_errors (Getopt_long_ambiguous (nextchar d)))
         | Not_found \<Rightarrow>
             (of_char CHR ''?'',
              d\<lparr>nextchar := [], optind := optind d + 1, optopt := 0\<rparr>,
              print_if print_errors (Getopt_long_unrecognized (nextchar d)))
         | Found p \<Rightarrow>
             (let d1 = d\<lparr>optind := optind d + 1, nextchar := []\<rparr> in
              if nameend \<noteq> [] then
                (if has_arg p \<noteq> no_argument
                 then (val p, d1\<lparr>optarg := Some (tl nameend)\<rparr>, [])
                 else (of_char CHR ''?'', d1\<lparr>optopt := val p\<rparr>,
                       print_if print_errors (Getopt_long_no_argument_allowed (name p))))
              else if has_arg p = required_argument then
                (if optind d1 < length argv
                 then (val p,
                       d1\<lparr>optarg := Some (argv ! optind d1), optind := optind d1 + 1\<rparr>, [])
                 else (if take 1 optstring = '':'' then of_char CHR '':'' else of_char CHR ''?'',
                       d1\<lparr>optopt := val p\<rparr>,
                       print_if print_errors (Getopt_long_requires_argument (name p))))
              else (val p, d1, [])))"

text \<open>
  The short-option part of \<^verbatim>\<open>_getopt_internal_r\<close>: take the next character of the
  element, step \<^verbatim>\<open>optind\<close> when it is the last one, look it up in the option string
  and fetch the argument the option string asks for. The parser's option string has no
  \<^verbatim>\<open>W;\<close>, so the library's handling of \<^verbatim>\<open>-W name\<close> is left out.
\<close>

definition process_short_option ::
  "string list \<Rightarrow> string \<Rightarrow> bool \<Rightarrow> getopt_data \<Rightarrow> int \<times> getopt_data \<times> event list" where
  "process_short_option argv optstring print_errors d =
     (case nextchar d of
        [] \<Rightarrow> (- 1, d, [])
      | c # rest \<Rightarrow>
          (let temp = strchr optstring c;
               d1 = d\<lparr>nextchar := rest,
                      optind := (if rest = [] then optind d + 1 else optind d)\<rparr>
           in if temp = [] \<or> c = CHR '':'' \<or> c = CHR '';'' then
                (of_char CHR ''?'', d1\<lparr>optopt := of_char c\<rparr>,
                 print_if print_errors (Getopt_invalid_option c))
              else if take 1 (tl temp) = '':'' then
                (if take 1 (tl (tl temp)) = '':'' then
                   (if rest \<noteq> []
                    then (of_char c,
                          d1\<lparr>optarg := Some rest, optind := optind d1 + 1, nextchar := []\<rparr>, [])
                    else (of_char c, d1\<lparr>optarg := None, nextchar := []\<rparr>, []))
                 else
                   (if rest \<noteq> []
                    then (of_char c,
                          d1\<lparr>optarg := Some rest, optind := optind d1 + 1, nextchar := []\<rparr>, [])
                    else if length argv \<le> optind d1
                    then (if take 1 optstring = '':'' then of_char CHR '':''
                          else of_char CHR ''?'',
                          d1\<lparr>optopt := of_char c, nextchar := []\<rparr>,
                          print_if print_errors (Getopt_requires_argument c))
                    else (of_char c,
                          d1\<lparr>optarg := Some (argv ! optind d1), optind := optind d1 + 1,
                             nextchar := []\<rparr>, [])))
              else (of_char c, d1, [])))"

text \<open>
  \<^verbatim>\<open>getopt_long\<close> of the GNU C library for an option string that starts with
  \<^verbatim>\<open>+\<close>, as the parser's does: the leading \<^verbatim>\<open>+\<close> selects the mode
  \<^verbatim>\<open>REQUIRE_ORDER\<close>, in which the scan ends at the first argv element that is not an
  option and argv is never permuted. The result is the value returned (\<open>- 1\<close> at the end
  of the options), the new state and the diagnostics written. \<^verbatim>\<open>argc\<close> is the length
  of \<open>argv\<close>. The library compares \<^verbatim>\<open>optind\<close> with \<^verbatim>\<open>argc\<close> by equality; an
  \<^verbatim>\<open>optind\<close> beyond \<^verbatim>\<open>argc\<close>, which a scan that starts inside argv never
  reaches, would read past the end of argv there and ends the scan here. The index of the
  long option found (\<^verbatim>\<open>option_index\<close>) is written by the library and never read by
  the parser; it is left out.
\<close>

definition getopt_long ::
  "string list \<Rightarrow> string \<Rightarrow> long_option list \<Rightarrow> getopt_data
     \<Rightarrow> int \<times> getopt_data \<times> event list" where
  "getopt_long argv optstring longopts d0 =
     (if length argv < 1 then (- 1, d0, [])
      else
        (let d = (if optind d0 = 0 then d0\<lparr>optind := 1, nextchar := []\<rparr> else d0)
                   \<lparr>optarg := None\<rparr>;
             os = (if take 1 optstring = ''-'' \<or> take 1 optstring = ''+''
                   then tl optstring else optstring);
             print_errors = (if take 1 os = '':'' then False else opterr d)
         in if nextchar d = [] then
              (if optind d < length argv \<and> argv ! optind d = ''--''
               then (- 1, d\<lparr>optind := optind d + 1\<rparr>, [])
               else if length argv \<le> optind d then (- 1, d, [])
               else if NONOPTION_P (argv ! optind d) then (- 1, d, [])
               else if take 1 (tl (argv ! optind d)) = ''-''
               then process_long_option argv os longopts print_errors
                      (d\<lparr>nextchar := drop 2 (argv ! optind d)\<rparr>)
               else process_short_option argv os print_errors
                      (d\<lparr>nextchar := tl (argv ! optind d)\<rparr>))
            else process_short_option argv os print_errors d))"

subsection \<open>The parser's data\<close>

datatype ff_mode = E_FF_DISABLED | E_FF_FULL

text \<open>
  Modelled from the spec: \<^verbatim>\<open>struct cl_options\<close> is declared in
  \<^verbatim>\<open>strace.ebpf.h\<close>, which is not among the sources. The record has the members the
  parser assigns, with the types section 3 of the specification gives them; the two
  members that hold the result of an external lookup are C enumerations, kept as
  integers, and \<^verbatim>\<open>pid\<close> is the \<^verbatim>\<open>int\<close> that \<^verbatim>\<open>atoi\<close> returns.
\<close>

record cl_options =
  do_not_print_progress :: bool
  timestamp :: bool
  failed :: bool
  debug :: bool
  pid :: int
  out_fn :: "string option"
  out_lf_fld_sep_ch :: char
  ebpf_src_dir :: "string option"
  expr :: "string option"
  out_fmt_str :: "string option"
  fnr_mode :: int
  ff_mode :: ff_mode
  ff_separate_logs :: bool
  command :: bool

text \<open>
  The routines the parser calls that are defined elsewhere in the repository, as
  parameters: the two lookups from a string to an enumeration value, and the value
  \<^verbatim>\<open>print_syscalls_table (stdout)\<close> returns.
\<close>

record externals =
  out_fmt_str2enum :: "string \<Rightarrow> int"
  choose_fnr_mode :: "string \<Rightarrow> int"
  print_syscalls_table :: int

text \<open>
  Everything the parser reads and writes: the structure behind the pointer
  \<^verbatim>\<open>clo\<close>, the global \<^verbatim>\<open>Out_lf_fmt\<close>, the state of \<^verbatim>\<open>getopt_long\<close> and
  the output written so far.
\<close>

record state =
  clo :: cl_options
  Out_lf_fmt :: int
  getopt :: getopt_data
  written :: "event list"

datatype step = Exit int state | Continue state

datatype outcome = Exited int state | Returned nat state

definition emit :: "event list \<Rightarrow> state \<Rightarrow> state" where
  "emit es s = s\<lparr>written := written s @ es\<rparr>"

subsection \<open>The parser\<close>

definition long_options :: "long_option list" where
  "long_options =
     [\<lparr>name = ''timestamp'', has_arg = no_argument, val = of_char CHR ''t''\<rparr>,
      \<lparr>name = ''failed'', has_arg = no_argument, val = of_char CHR ''X''\<rparr>,
      \<lparr>name = ''help'', has_arg = no_argument, val = of_char CHR ''h''\<rparr>,
      \<lparr>name = ''debug'', has_arg = no_argument, val = of_char CHR ''d''\<rparr>,
      \<lparr>name = ''list'', has_arg = no_argument, val = of_char CHR ''L''\<rparr>,
      \<lparr>name = ''ll-list'', has_arg = no_argument, val = of_char CHR ''R''\<rparr>,
      \<lparr>name = ''builtin-list'', has_arg = no_argument, val = of_char CHR ''B''\<rparr>,
      \<lparr>name = ''no-progress'', has_arg = no_argument, val = of_char CHR ''r''\<rparr>,
      \<lparr>name = ''pid'', has_arg = required_argument, val = of_char CHR ''p''\<rparr>,
      \<lparr>name = ''format'', has_arg = required_argument, val = of_char CHR ''l''\<rparr>,
      \<lparr>name = ''string-args'', has_arg = required_argument, val = of_char CHR ''s''\<rparr>,
      \<lparr>name = ''expr'', has_arg = required_argument, val = of_char CHR ''e''\<rparr>,
      \<lparr>name = ''output'', has_arg = required_argument, val = of_char CHR ''o''\<rparr>,
      \<lparr>name = ''ebpf-src-dir'', has_arg = required_argument, val = of_char CHR ''N''\<rparr>,
      \<lparr>name = ''hex-separator'', has_arg = required_argument, val = of_char CHR ''K''\<rparr>,
      \<lparr>name = ''full-follow-fork'', has_arg = optional_argument, val = of_char CHR ''f''\<rparr>]"

definition optstring :: string where
  "optstring = ''+tXhdLRBrp:l:s:e:o:N:K:f::''"

text \<open>
  \<^verbatim>\<open>check_optarg\<close>, followed by the rest of the \<^verbatim>\<open>case\<close> it guards: a null
  \<^verbatim>\<open>optarg\<close> ends the process, otherwise the code after the call runs with the string
  \<^verbatim>\<open>optarg\<close> points to.
\<close>

definition check_optarg :: "string option \<Rightarrow> state \<Rightarrow> (string \<Rightarrow> step) \<Rightarrow> step" where
  "check_optarg oa s k =
     (case oa of
        None \<Rightarrow> Exit EXIT_FAILURE (emit [ERROR_missing_argument, Fprint_help Stderr] s)
      | Some v \<Rightarrow> k v)"

definition upd_clo :: "(cl_options \<Rightarrow> cl_options) \<Rightarrow> state \<Rightarrow> state" where
  "upd_clo f s = s\<lparr>clo := f (clo s)\<rparr>"

text \<open>
  The \<^verbatim>\<open>switch (c)\<close> of the loop body, one branch for each \<^verbatim>\<open>case\<close> in the
  order of the source; \<^verbatim>\<open>default\<close> falls through into \<^verbatim>\<open>case '?'\<close>.
\<close>

definition handle_option :: "externals \<Rightarrow> int \<Rightarrow> state \<Rightarrow> step" where
  "handle_option ext c s =
     (let oa = optarg (getopt s) in
      if c = of_char CHR ''r'' then
        Continue (upd_clo (\<lambda>r. r\<lparr>do_not_print_progress := True\<rparr>) s)
      else if c = of_char CHR ''t'' then
        Continue (upd_clo (\<lambda>r. r\<lparr>timestamp := True\<rparr>) s)
      else if c = of_char CHR ''X'' then
        Continue (upd_clo (\<lambda>r. r\<lparr>failed := True\<rparr>) s)
      else if c = of_char CHR ''h'' then
        Exit EXIT_SUCCESS (emit [Fprint_help Stdout] s)
      else if c = of_char CHR ''d'' then
        Continue (upd_clo (\<lambda>r. r\<lparr>debug := True\<rparr>) s)
      else if c = of_char CHR ''p'' then
        check_optarg oa s (\<lambda>v.
          let s1 = upd_clo (\<lambda>r. r\<lparr>pid := atoi v\<rparr>) s in
          if pid (clo s1) < 1
          then Exit EXIT_FAILURE (emit [ERROR_wrong_pid v (pid (clo s1))] s1)
          else Continue s1)
      else if c = of_char CHR ''o'' then
        check_optarg oa s (\<lambda>v. Continue (upd_clo (\<lambda>r. r\<lparr>out_fn := Some v\<rparr>) s))
      else if c = of_char CHR ''K'' then
        check_optarg oa s (\<lambda>v.
          Continue (upd_clo (\<lambda>r. r\<lparr>out_lf_fld_sep_ch :=
                                    (case v of [] \<Rightarrow> CHR 0x00 | x # xs \<Rightarrow> x)\<rparr>) s))
      else if c = of_char CHR ''N'' then
        check_optarg oa s (\<lambda>v. Continue (upd_clo (\<lambda>r. r\<lparr>ebpf_src_dir := Some v\<rparr>) s))
      else if c = of_char CHR ''e'' then
        check_optarg oa s (\<lambda>v.
          if strcasecmp v ''list'' = 0 \<or> strcasecmp v ''help'' = 0 then
            Exit EXIT_SUCCESS
              (emit [INFO Supported_expressions, INFO Supported_sets_hint] s)
          else if strcasecmp v ''trace=help'' = 0 \<or> strcasecmp v ''trace=list'' = 0 then
            Exit EXIT_SUCCESS
              (emit [Fprint_trace_list Stderr, INFO Combine_sets_hint] s)
          else Continue (upd_clo (\<lambda>r. r\<lparr>expr := Some v\<rparr>) s))
      else if c = of_char CHR ''l'' then
        check_optarg oa s (\<lambda>v.
          if strcasecmp v ''list'' = 0 \<or> strcasecmp v ''help'' = 0 then
            Exit EXIT_SUCCESS (emit [INFO Supported_formats] s)
          else
            (let s1 = upd_clo (\<lambda>r. r\<lparr>out_fmt_str := Some v\<rparr>) s in
             Continue (s1\<lparr>Out_lf_fmt := out_fmt_str2enum ext v\<rparr>)))
      else if c = of_char CHR ''s'' then
        check_optarg oa s (\<lambda>v.
          Continue (upd_clo (\<lambda>r. r\<lparr>fnr_mode := choose_fnr_mode ext v\<rparr>) s))
      else if c = of_char CHR ''L'' then
        Exit EXIT_SUCCESS (emit [Get_sc_list Stdout True] s)
      else if c = of_char CHR ''R'' then
        Exit EXIT_SUCCESS (emit [Get_sc_list Stdout False] s)
      else if c = of_char CHR ''B'' then
        (let res = print_syscalls_table ext;
             s1 = emit [Print_syscalls_table Stdout] s
         in if res = 1 then Exit EXIT_SUCCESS s1
            else if res = 0 then Exit EXIT_FAILURE s1
            else Exit res s1)
      else if c = of_char CHR ''f'' then
        (let s1 = upd_clo (\<lambda>r. r\<lparr>ff_mode := E_FF_FULL\<rparr>) s in
         case oa of
           Some v \<Rightarrow> Continue (upd_clo (\<lambda>r. r\<lparr>ff_separate_logs := True\<rparr>) s1)
         | None \<Rightarrow> Continue s1)
      else if c = of_char CHR '':'' then
        Exit EXIT_FAILURE (emit [ERROR_missing_argument, Fprint_help Stderr] s)
      else if c = of_char CHR ''?'' then
        Exit EXIT_FAILURE (emit [Fprint_help Stderr] s)
      else
        Exit EXIT_FAILURE (emit [ERROR_unknown_option c, Fprint_help Stderr] s))"


subsection \<open>The scanner makes progress\<close>

text \<open>
  The number of characters of argv that are still to be scanned, counting one for the end
  of each element. Every call of \<^verbatim>\<open>getopt_long\<close> that does not return \<open>- 1\<close>
  decreases it, which is why the loop of the parser ends.
\<close>

definition weight :: "string list \<Rightarrow> nat \<Rightarrow> nat" where
  "weight argv i = sum_list (map (\<lambda>a. length a + 1) (drop i argv))"

definition remaining :: "string list \<Rightarrow> getopt_data \<Rightarrow> nat" where
  "remaining argv d =
     (if nextchar d = [] then weight argv (optind d)
      else length (nextchar d) + weight argv (Suc (optind d)))"

lemma weight_mono: "i \<le> j \<Longrightarrow> weight argv j \<le> weight argv i"
proof (induction argv arbitrary: i j)
  case Nil
  then show ?case by (simp add: weight_def)
next
  case (Cons a argv)
  show ?case
  proof (cases i)
    case 0
    then show ?thesis
    proof (cases j)
      case 0
      with \<open>i = 0\<close> show ?thesis by simp
    next
      case (Suc j')
      have "weight argv j' \<le> weight argv 0" using Cons.IH [of 0 j'] by simp
      with Suc \<open>i = 0\<close> show ?thesis by (simp add: weight_def)
    qed
  next
    case (Suc i')
    then obtain j' where j: "j = Suc j'" and le: "i' \<le> j'"
      using Cons.prems by (cases j) auto
    from Cons.IH [OF le] Suc j show ?thesis by (simp add: weight_def)
  qed
qed

lemma weight_Suc: "i < length argv \<Longrightarrow> weight argv i = length (argv ! i) + 1 + weight argv (Suc i)"
  by (simp add: weight_def Cons_nth_drop_Suc [symmetric])

lemma short_progress:
  assumes "process_short_option argv os pe d = (c, d', es)" and "nextchar d \<noteq> []"
  shows "(nextchar d' = [] \<and> optind d < optind d') \<or>
         (nextchar d' \<noteq> [] \<and> optind d' = optind d \<and> length (nextchar d') < length (nextchar d))"
  using assms
  by (auto simp: process_short_option_def Let_def split: list.splits if_splits)

lemma long_progress:
  assumes "process_long_option argv os lo pe d = (c, d', es)"
  shows "nextchar d' = [] \<and> optind d < optind d'"
  using assms
  by (auto simp: process_long_option_def Let_def print_if_def split: lookup.splits if_splits)

lemma getopt_long_progress:
  assumes "getopt_long argv os lo d = (c, d', es)" and "c \<noteq> - 1"
  shows "remaining argv d' < remaining argv d"
proof -
  define d1 where "d1 = (if optind d = 0 then d\<lparr>optind := 1, nextchar := []\<rparr> else d)\<lparr>optarg := None\<rparr>"
  have d1_le: "remaining argv d1 \<le> remaining argv d"
    using weight_mono [of 1 "Suc (optind d)" argv] weight_mono [of 0 1 argv]
    by (auto simp: d1_def remaining_def)
  have "remaining argv d' < remaining argv d1"
  proof (cases "nextchar d1 = []")
    case False
    then obtain os' pe where "process_short_option argv os' pe d1 = (c, d', es)"
      using assms by (auto simp: getopt_long_def Let_def d1_def split: if_splits)
    from short_progress [OF this False] show ?thesis
      using weight_mono [of "Suc (optind d1)" "optind d'" argv] False
      by (cases "nextchar d1") (auto simp: remaining_def)
  next
    case True
    let ?a = "argv ! optind d1"
    from assms True have lt: "optind d1 < length argv" and nonopt: "\<not> NONOPTION_P ?a"
      by (auto simp: getopt_long_def Let_def d1_def split: if_splits)
    from nonopt obtain r where a: "?a = CHR ''-'' # r" and r: "r \<noteq> []"
      by (auto simp: NONOPTION_P_def split: list.splits if_splits)
    have w: "remaining argv d1 = length ?a + 1 + weight argv (Suc (optind d1))"
      using True weight_Suc [OF lt] by (simp add: remaining_def)
    from assms True lt nonopt
    consider os' pe where "process_long_option argv os' lo pe (d1\<lparr>nextchar := drop 2 ?a\<rparr>) = (c, d', es)"
      | os' pe where "process_short_option argv os' pe (d1\<lparr>nextchar := tl ?a\<rparr>) = (c, d', es)"
      by (auto simp: getopt_long_def Let_def d1_def split: if_splits)
    then show ?thesis
    proof cases
      case 1
      from long_progress [OF 1] show ?thesis
        using weight_mono [of "Suc (optind d1)" "optind d'" argv] w
        by (auto simp: remaining_def)
    next
      case 2
      from short_progress [OF 2] a r show ?thesis
        using weight_mono [of "Suc (optind d1)" "optind d'" argv] w
        by (auto simp: remaining_def)
    qed
  qed
  with d1_le show ?thesis by simp
qed

lemma handle_option_getopt:
  "handle_option ext c s = Continue s' \<Longrightarrow> getopt s' = getopt s"
  by (auto simp: handle_option_def check_optarg_def upd_clo_def emit_def Let_def
           split: if_splits option.splits)

text \<open>
  The \<^verbatim>\<open>while (1)\<close> loop of \<^verbatim>\<open>cl_parser\<close>: it is left by
  \<^verbatim>\<open>break\<close> when \<^verbatim>\<open>getopt_long\<close> returns \<open>- 1\<close> (\<open>Continue\<close>: the code
  after the loop runs) or by a call of \<^verbatim>\<open>exit\<close> inside the \<^verbatim>\<open>switch\<close>.
\<close>

function cl_parser_loop :: "externals \<Rightarrow> string list \<Rightarrow> state \<Rightarrow> step" where
  "cl_parser_loop ext argv s =
     (case getopt_long argv optstring long_options (getopt s) of
        (c, d, diag) \<Rightarrow>
          (let s1 = emit diag (s\<lparr>getopt := d\<rparr>) in
           if c = - 1 then Continue s1
           else (case handle_option ext c s1 of
                   Exit status s2 \<Rightarrow> Exit status s2
                 | Continue s2 \<Rightarrow> cl_parser_loop ext argv s2)))"
  by pat_completeness auto
termination
  apply (relation "measure (\<lambda>(ext, argv, s). remaining argv (getopt s))")
   apply simp
  apply (auto simp: emit_def dest!: handle_option_getopt dest: getopt_long_progress [OF sym])
  done

text \<open>
  \<^verbatim>\<open>cl_parser\<close>: the loop, then \<^verbatim>\<open>if (optind < argc) clo->command = true\<close>
  and \<^verbatim>\<open>return optind\<close>.
\<close>

definition cl_parser :: "externals \<Rightarrow> string list \<Rightarrow> state \<Rightarrow> outcome" where
  "cl_parser ext argv s =
     (case cl_parser_loop ext argv s of
        Exit status s1 \<Rightarrow> Exited status s1
      | Continue s1 \<Rightarrow>
          Returned (optind (getopt s1))
            (if optind (getopt s1) < length argv
             then upd_clo (\<lambda>r. r\<lparr>command := True\<rparr>) s1 else s1))"

subsection \<open>Auxiliary definitions\<close>

text \<open>
  The option string behind the leading \<^verbatim>\<open>+\<close>, which is what the scanner looks
  option characters up in.
\<close>

definition os :: string where
  "os = tl optstring"

text \<open>
  The state in which \<^verbatim>\<open>main\<close> calls the parser: the options structure and the
  global format as the caller prepared them, \<^verbatim>\<open>getopt_long\<close> as the C library
  starts it, and nothing written yet.
\<close>

definition initial_state :: "cl_options \<Rightarrow> int \<Rightarrow> state" where
  "initial_state c fmt = \<lparr>clo = c, Out_lf_fmt = fmt, getopt = getopt_initial, written = []\<rparr>"

text \<open>
  Concrete inputs for the examples: the all-zero options structure and a choice of the
  external routines.
\<close>

definition zero_options :: cl_options where
  "zero_options =
     \<lparr>do_not_print_progress = False, timestamp = False, failed = False, debug = False,
      pid = 0, out_fn = None, out_lf_fld_sep_ch = CHR 0x00, ebpf_src_dir = None,
      expr = None, out_fmt_str = None, fnr_mode = 0, ff_mode = E_FF_DISABLED,
      ff_separate_logs = False, command = False\<rparr>"

definition sample_externals :: externals where
  "sample_externals =
     \<lparr>out_fmt_str2enum = (\<lambda>v. int (length v)), choose_fnr_mode = (\<lambda>v. int (length v)),
      print_syscalls_table = 1\<rparr>"

text \<open>
  The state a result carries, and the option characters whose entry in the option string
  is followed by a single colon.
\<close>

definition final_state :: "outcome \<Rightarrow> state" where
  "final_state r = (case r of Exited status s \<Rightarrow> s | Returned i s \<Rightarrow> s)"

definition step_state :: "step \<Rightarrow> state" where
  "step_state r = (case r of Exit status s \<Rightarrow> s | Continue s \<Rightarrow> s)"

definition value_options :: "int set" where
  "value_options = of_char ` set ''plseoNK''"


subsection \<open>One iteration of the loop\<close>

declare cl_parser_loop.simps [simp del]

lemma loop_break:
  "getopt_long argv optstring long_options (getopt s) = (- 1, d, es) \<Longrightarrow>
   cl_parser_loop ext argv s = Continue (emit es (s\<lparr>getopt := d\<rparr>))"
  by (subst cl_parser_loop.simps) simp

lemma loop_exit:
  "getopt_long argv optstring long_options (getopt s) = (c, d, es) \<Longrightarrow> c \<noteq> - 1 \<Longrightarrow>
   handle_option ext c (emit es (s\<lparr>getopt := d\<rparr>)) = Exit status s2 \<Longrightarrow>
   cl_parser_loop ext argv s = Exit status s2"
  by (subst cl_parser_loop.simps) simp

lemma loop_next:
  "getopt_long argv optstring long_options (getopt s) = (c, d, es) \<Longrightarrow> c \<noteq> - 1 \<Longrightarrow>
   handle_option ext c (emit es (s\<lparr>getopt := d\<rparr>)) = Continue s2 \<Longrightarrow>
   cl_parser_loop ext argv s = cl_parser_loop ext argv s2"
  by (subst cl_parser_loop.simps) simp


subsection \<open>What the scanner returns for each shape of argv element\<close>


lemma boundary_end:
  "nextchar d = [] \<Longrightarrow> 0 < optind d \<Longrightarrow> length argv \<le> optind d \<Longrightarrow> argv \<noteq> [] \<Longrightarrow>
   getopt_long argv optstring long_options d = (- 1, d\<lparr>optarg := None\<rparr>, [])"
  by (simp add: getopt_long_def Let_def)

lemma boundary_nonoption:
  "nextchar d = [] \<Longrightarrow> 0 < optind d \<Longrightarrow> optind d < length argv \<Longrightarrow>
   NONOPTION_P (argv ! optind d) \<Longrightarrow>
   getopt_long argv optstring long_options d = (- 1, d\<lparr>optarg := None\<rparr>, [])"
  by (auto simp: getopt_long_def Let_def NONOPTION_P_def split: list.splits if_splits)

lemma boundary_dashdash:
  "nextchar d = [] \<Longrightarrow> 0 < optind d \<Longrightarrow> optind d < length argv \<Longrightarrow>
   argv ! optind d = ''--'' \<Longrightarrow>
   getopt_long argv optstring long_options d = (- 1, d\<lparr>optarg := None, optind := optind d + 1\<rparr>, [])"
  by (auto simp: getopt_long_def Let_def)

lemma boundary_short:
  "nextchar d = [] \<Longrightarrow> 0 < optind d \<Longrightarrow> optind d < length argv \<Longrightarrow>
   argv ! optind d = CHR ''-'' # x # r \<Longrightarrow> x \<noteq> CHR ''-'' \<Longrightarrow>
   getopt_long argv optstring long_options d =
     process_short_option argv os (opterr d) (d\<lparr>optarg := None, nextchar := x # r\<rparr>)"
  by (auto simp: getopt_long_def Let_def NONOPTION_P_def optstring_def os_def)

lemma boundary_long:
  "nextchar d = [] \<Longrightarrow> 0 < optind d \<Longrightarrow> optind d < length argv \<Longrightarrow>
   argv ! optind d = CHR ''-'' # CHR ''-'' # x # r \<Longrightarrow>
   getopt_long argv optstring long_options d =
     process_long_option argv os long_options (opterr d) (d\<lparr>optarg := None, nextchar := x # r\<rparr>)"
  by (auto simp: getopt_long_def Let_def NONOPTION_P_def optstring_def os_def)

lemma inside_short:
  "nextchar d \<noteq> [] \<Longrightarrow> 0 < optind d \<Longrightarrow> argv \<noteq> [] \<Longrightarrow>
   getopt_long argv optstring long_options d =
     process_short_option argv os (opterr d) (d\<lparr>optarg := None\<rparr>)"
  by (simp add: getopt_long_def Let_def optstring_def os_def)

lemma strchr_Nil: "strchr s x = [] \<longleftrightarrow> x \<notin> set s"
  by (auto simp: strchr_def dropWhile_eq_Nil_conv)

lemmas short_defs = process_short_option_def os_def optstring_def strchr_def Let_def

lemma short_flag:
  assumes "nextchar d = x # rest" and "x \<in> set ''tXhdLRBr''"
  shows "process_short_option argv os pe d =
           (of_char x, d\<lparr>nextchar := rest,
                         optind := (if rest = [] then optind d + 1 else optind d)\<rparr>, [])"
  using assms(2) apply simp
  apply (elim disjE)
  using assms(1) apply (simp_all add: short_defs)
  done

lemma short_attached:
  assumes "nextchar d = x # rest" and "rest \<noteq> []" and "x \<in> set ''plseoNKf''"
  shows "process_short_option argv os pe d =
           (of_char x, d\<lparr>nextchar := [], optind := optind d + 1, optarg := Some rest\<rparr>, [])"
  using assms(3) apply simp
  apply (elim disjE)
  using assms(1,2) apply (simp_all add: short_defs)
  done

lemma short_next:
  assumes "nextchar d = [x]" and "optind d + 1 < length argv" and "x \<in> set ''plseoNK''"
  shows "process_short_option argv os pe d =
           (of_char x, d\<lparr>nextchar := [], optind := optind d + 2,
                         optarg := Some (argv ! (optind d + 1))\<rparr>, [])"
  using assms(3) apply simp
  apply (elim disjE)
  using assms(1,2) apply (simp_all add: short_defs)
  done

lemma short_missing:
  assumes "nextchar d = [x]" and "length argv \<le> optind d + 1" and "x \<in> set ''plseoNK''"
  shows "process_short_option argv os pe d =
           (of_char CHR ''?'', d\<lparr>nextchar := [], optind := optind d + 1, optopt := of_char x\<rparr>,
            print_if pe (Getopt_requires_argument x))"
  using assms(3) apply simp
  apply (elim disjE)
  using assms(1,2) apply (simp_all add: short_defs)
  done

lemma short_optional_bare:
  assumes "nextchar d = ''f''"
  shows "process_short_option argv os pe d =
           (of_char CHR ''f'', d\<lparr>nextchar := [], optind := optind d + 1, optarg := None\<rparr>, [])"
  using assms by (simp add: short_defs)

lemma short_invalid:
  assumes "nextchar d = x # rest" and "x \<notin> set ''tXhdLRBrplseoNKf''"
  shows "process_short_option argv os pe d =
           (of_char CHR ''?'',
            d\<lparr>nextchar := rest, optind := (if rest = [] then optind d + 1 else optind d),
               optopt := of_char x\<rparr>,
            print_if pe (Getopt_invalid_option x))"
proof (cases "x \<in> set os")
  case False
  then have "strchr os x = []" by (simp add: strchr_Nil)
  with assms(1) show ?thesis by (simp add: process_short_option_def Let_def)
next
  case True
  with assms(2) have "x = CHR '':''" by (auto simp: os_def optstring_def)
  with assms(1) show ?thesis by (simp add: process_short_option_def Let_def)
qed

lemma long_lookup_exact:
  assumes "p \<in> set long_options"
  shows "find_long_option long_options (name p) = Found p"
  using assms unfolding long_options_def
  apply simp
  apply (elim disjE)
  apply (simp_all add: find_long_option_def)
  done

lemma long_name_no_equals:
  assumes "p \<in> set long_options"
  shows "CHR ''='' \<notin> set (name p)"
  using assms unfolding long_options_def by auto

lemma name_split:
  assumes "CHR ''='' \<notin> set nm"
  shows "takeWhile (\<lambda>c. c \<noteq> CHR ''='') nm = nm"
    and "dropWhile (\<lambda>c. c \<noteq> CHR ''='') nm = []"
    and "takeWhile (\<lambda>c. c \<noteq> CHR ''='') (nm @ CHR ''='' # v) = nm"
    and "dropWhile (\<lambda>c. c \<noteq> CHR ''='') (nm @ CHR ''='' # v) = CHR ''='' # v"
  using assms by (induction nm) auto

lemma long_flag:
  assumes "p \<in> set long_options" and "nextchar d = name p" and "has_arg p \<noteq> required_argument"
  shows "process_long_option argv os long_options pe d =
           (val p, d\<lparr>optind := optind d + 1, nextchar := []\<rparr>, [])"
  using assms(2-)
  by (simp add: process_long_option_def Let_def long_lookup_exact [OF assms(1)]
        name_split [OF long_name_no_equals [OF assms(1)]])

lemma long_next:
  assumes "p \<in> set long_options" and "nextchar d = name p" and "has_arg p = required_argument"
    and "optind d + 1 < length argv"
  shows "process_long_option argv os long_options pe d =
           (val p, d\<lparr>optind := optind d + 2, nextchar := [],
                       optarg := Some (argv ! (optind d + 1))\<rparr>, [])"
  using assms(2-)
  by (simp add: process_long_option_def Let_def long_lookup_exact [OF assms(1)]
        name_split [OF long_name_no_equals [OF assms(1)]])

lemma long_missing:
  assumes "p \<in> set long_options" and "nextchar d = name p" and "has_arg p = required_argument"
    and "length argv \<le> optind d + 1"
  shows "process_long_option argv os long_options pe d =
           (of_char CHR ''?'', d\<lparr>optind := optind d + 1, nextchar := [], optopt := val p\<rparr>,
            print_if pe (Getopt_long_requires_argument (name p)))"
  using assms(2-)
  by (simp add: process_long_option_def Let_def os_def optstring_def
        long_lookup_exact [OF assms(1)] name_split [OF long_name_no_equals [OF assms(1)]])

lemma long_attached:
  assumes "p \<in> set long_options" and "nextchar d = name p @ CHR ''='' # v"
    and "has_arg p \<noteq> no_argument"
  shows "process_long_option argv os long_options pe d =
           (val p, d\<lparr>optind := optind d + 1, nextchar := [], optarg := Some v\<rparr>, [])"
  using assms(2-)
  by (simp add: process_long_option_def Let_def long_lookup_exact [OF assms(1)]
        name_split [OF long_name_no_equals [OF assms(1)]])


text \<open>
  The same, for a scan that is at the start of an argv element.
\<close>

lemma long_name_nonempty:
  assumes "p \<in> set long_options"
  obtains x r where "name p = x # r"
  using assms unfolding long_options_def by auto

lemma scan_long_flag:
  assumes "p \<in> set long_options" and "has_arg p \<noteq> required_argument"
    and "nextchar d = []" and "0 < optind d" and "optind d < length argv"
    and "argv ! optind d = ''--'' @ name p"
  shows "getopt_long argv optstring long_options d =
           (val p, d\<lparr>optarg := None, optind := optind d + 1, nextchar := []\<rparr>, [])"
proof -
  obtain x r where n: "name p = x # r" using assms(1) by (rule long_name_nonempty)
  with assms(6) have a: "argv ! optind d = CHR ''-'' # CHR ''-'' # x # r" by simp
  show ?thesis
    using long_flag [OF assms(1) _ assms(2), of "d\<lparr>optarg := None, nextchar := x # r\<rparr>" argv "opterr d"] n
    by (simp add: boundary_long [OF assms(3,4,5) a])
qed

lemma scan_long_value:
  assumes "p \<in> set long_options" and "has_arg p = required_argument"
    and "nextchar d = []" and "0 < optind d" and "optind d + 1 < length argv"
    and "argv ! optind d = ''--'' @ name p"
  shows "getopt_long argv optstring long_options d =
           (val p, d\<lparr>optarg := Some (argv ! (optind d + 1)), optind := optind d + 2,
                       nextchar := []\<rparr>, [])"
proof -
  obtain x r where n: "name p = x # r" using assms(1) by (rule long_name_nonempty)
  with assms(6) have a: "argv ! optind d = CHR ''-'' # CHR ''-'' # x # r" by simp
  from assms(5) have lt: "optind d < length argv" by simp
  show ?thesis
    using long_next [OF assms(1) _ assms(2), of "d\<lparr>optarg := None, nextchar := x # r\<rparr>" argv "opterr d"]
      n assms(5)
    by (simp add: boundary_long [OF assms(3,4) lt a])
qed

lemma scan_long_missing:
  assumes "p \<in> set long_options" and "has_arg p = required_argument"
    and "nextchar d = []" and "0 < optind d" and "optind d + 1 = length argv"
    and "argv ! optind d = ''--'' @ name p"
  shows "getopt_long argv optstring long_options d =
           (of_char CHR ''?'',
            d\<lparr>optarg := None, optind := optind d + 1, optopt := val p, nextchar := []\<rparr>,
            print_if (opterr d) (Getopt_long_requires_argument (name p)))"
proof -
  obtain x r where n: "name p = x # r" using assms(1) by (rule long_name_nonempty)
  with assms(6) have a: "argv ! optind d = CHR ''-'' # CHR ''-'' # x # r" by simp
  from assms(5) have lt: "optind d < length argv" by simp
  show ?thesis
    using long_missing [OF assms(1) _ assms(2), of "d\<lparr>optarg := None, nextchar := x # r\<rparr>" argv "opterr d"]
      n assms(5)
    by (simp add: boundary_long [OF assms(3,4) lt a])
qed

lemma scan_long_attached:
  assumes "p \<in> set long_options" and "has_arg p \<noteq> no_argument"
    and "nextchar d = []" and "0 < optind d" and "optind d < length argv"
    and "argv ! optind d = ''--'' @ name p @ CHR ''='' # v"
  shows "getopt_long argv optstring long_options d =
           (val p, d\<lparr>optarg := Some v, optind := optind d + 1, nextchar := []\<rparr>, [])"
proof -
  obtain x r where n: "name p = x # r" using assms(1) by (rule long_name_nonempty)
  with assms(6) have a: "argv ! optind d = CHR ''-'' # CHR ''-'' # x # (r @ CHR ''='' # v)" by simp
  show ?thesis
    using long_attached [OF assms(1) _ assms(2), of "d\<lparr>optarg := None, nextchar := x # r @ CHR ''='' # v\<rparr>" v argv "opterr d"] n
    by (simp add: boundary_long [OF assms(3,4,5) a])
qed

lemma scan_short_flag:
  assumes "x \<in> set ''tXhdLRBr''"
    and "nextchar d = []" and "0 < optind d" and "optind d < length argv"
    and "argv ! optind d = [CHR ''-'', x]"
  shows "getopt_long argv optstring long_options d =
           (of_char x, d\<lparr>optarg := None, optind := optind d + 1, nextchar := []\<rparr>, [])"
proof -
  from assms(1) have "x \<noteq> CHR ''-''" by auto
  from boundary_short [OF assms(2,3,4,5) this]
  show ?thesis
    using short_flag [OF _ assms(1), of "d\<lparr>optarg := None, nextchar := [x]\<rparr>" "[]" argv "opterr d"]
    by simp
qed

lemma scan_short_value:
  assumes "x \<in> set ''plseoNK''"
    and "nextchar d = []" and "0 < optind d" and "optind d + 1 < length argv"
    and "argv ! optind d = [CHR ''-'', x]"
  shows "getopt_long argv optstring long_options d =
           (of_char x, d\<lparr>optarg := Some (argv ! (optind d + 1)), optind := optind d + 2,
                          nextchar := []\<rparr>, [])"
proof -
  from assms(1) have ne: "x \<noteq> CHR ''-''" by auto
  from assms(4) have lt: "optind d < length argv" by simp
  from boundary_short [OF assms(2,3) lt assms(5) ne]
  show ?thesis
    using short_next [OF _ _ assms(1), of "d\<lparr>optarg := None, nextchar := [x]\<rparr>" argv "opterr d"] assms(4)
    by simp
qed

lemma scan_short_missing:
  assumes "x \<in> set ''plseoNK''"
    and "nextchar d = []" and "0 < optind d" and "optind d + 1 = length argv"
    and "argv ! optind d = [CHR ''-'', x]"
  shows "getopt_long argv optstring long_options d =
           (of_char CHR ''?'',
            d\<lparr>optarg := None, optind := optind d + 1, optopt := of_char x, nextchar := []\<rparr>,
            print_if (opterr d) (Getopt_requires_argument x))"
proof -
  from assms(1) have ne: "x \<noteq> CHR ''-''" by auto
  from assms(4) have lt: "optind d < length argv" by simp
  from boundary_short [OF assms(2,3) lt assms(5) ne]
  show ?thesis
    using short_missing [OF _ _ assms(1), of "d\<lparr>optarg := None, nextchar := [x]\<rparr>" argv "opterr d"] assms(4)
    by simp
qed

lemma scan_short_attached:
  assumes "x \<in> set ''plseoNKf''" and "v \<noteq> []"
    and "nextchar d = []" and "0 < optind d" and "optind d < length argv"
    and "argv ! optind d = CHR ''-'' # x # v"
  shows "getopt_long argv optstring long_options d =
           (of_char x, d\<lparr>optarg := Some v, optind := optind d + 1, nextchar := []\<rparr>, [])"
proof -
  from assms(1) have ne: "x \<noteq> CHR ''-''" by auto
  from boundary_short [OF assms(3,4,5,6) ne]
  show ?thesis
    using short_attached [OF _ assms(2,1), of "d\<lparr>optarg := None, nextchar := x # v\<rparr>" argv "opterr d"]
    by simp
qed

lemma scan_short_optional_bare:
  assumes "nextchar d = []" and "0 < optind d" and "optind d < length argv"
    and "argv ! optind d = ''-f''"
  shows "getopt_long argv optstring long_options d =
           (of_char CHR ''f'', d\<lparr>optarg := None, optind := optind d + 1, nextchar := []\<rparr>, [])"
proof -
  from boundary_short [OF assms(1,2,3), of "CHR ''f''" "[]"] assms(4)
  show ?thesis
    using short_optional_bare [of "d\<lparr>optarg := None, nextchar := ''f''\<rparr>" argv "opterr d"]
    by simp
qed


subsection \<open>Whole runs of the parser\<close>


lemmas atoi_defs = atoi_def strtol10_def int_of_long_def isspace_def isdigit_def
  LONG_MAX_def LONG_MIN_def

lemma cl_parser_step:
  assumes "getopt_long argv optstring long_options (getopt s) = (c, d, es)" and "c \<noteq> - 1"
  shows "cl_parser ext argv s =
           (case handle_option ext c (emit es (s\<lparr>getopt := d\<rparr>)) of
              Exit status s2 \<Rightarrow> Exited status s2
            | Continue s2 \<Rightarrow> cl_parser ext argv s2)"
proof (cases "handle_option ext c (emit es (s\<lparr>getopt := d\<rparr>))")
  case (Exit status s2)
  from loop_exit [OF assms this] Exit show ?thesis by (simp add: cl_parser_def)
next
  case (Continue s2)
  from loop_next [OF assms this] Continue show ?thesis by (simp add: cl_parser_def)
qed

lemma cl_parser_stop:
  assumes "getopt_long argv optstring long_options (getopt s) = (- 1, d, es)"
  shows "cl_parser ext argv s =
           Returned (optind d)
             (if optind d < length argv
              then upd_clo (\<lambda>r. r\<lparr>command := True\<rparr>) (emit es (s\<lparr>getopt := d\<rparr>))
              else emit es (s\<lparr>getopt := d\<rparr>))"
  using loop_break [OF assms, of ext] by (simp add: cl_parser_def emit_def)

lemma cl_parser_done:
  assumes "nextchar (getopt s) = []" and "0 < optind (getopt s)"
    and "length argv \<le> optind (getopt s)" and "argv \<noteq> []"
  shows "cl_parser ext argv s =
           Returned (optind (getopt s)) (s\<lparr>getopt := (getopt s)\<lparr>optarg := None\<rparr>\<rparr>)"
  using cl_parser_stop [OF boundary_end [OF assms], of ext] assms(3) by (simp add: emit_def)

lemma run_single:
  assumes g: "getopt_long argv optstring long_options getopt_initial = (c, d, es)"
    and ne: "c \<noteq> - 1"
    and h: "handle_option ext c \<lparr>clo = c0, Out_lf_fmt = fmt, getopt = d, written = es\<rparr> = r"
    and fin: "nextchar d = []" "0 < optind d" "length argv \<le> optind d" "argv \<noteq> []"
  shows "cl_parser ext argv (initial_state c0 fmt) =
           (case r of
              Exit status s2 \<Rightarrow> Exited status s2
            | Continue s2 \<Rightarrow> Returned (optind d) (s2\<lparr>getopt := d\<lparr>optarg := None\<rparr>\<rparr>))"
proof -
  have g': "getopt_long argv optstring long_options (getopt (initial_state c0 fmt)) = (c, d, es)"
    using g by (simp add: initial_state_def)
  have s1: "emit es (initial_state c0 fmt\<lparr>getopt := d\<rparr>) =
              \<lparr>clo = c0, Out_lf_fmt = fmt, getopt = d, written = es\<rparr>"
    by (simp add: emit_def initial_state_def)
  show ?thesis
  proof (cases r)
    case (Exit status s2)
    with cl_parser_step [OF g' ne, of ext] h s1 show ?thesis by simp
  next
    case (Continue s2)
    with h have "getopt s2 = d" using handle_option_getopt by fastforce
    with fin have "cl_parser ext argv s2 = Returned (optind d) (s2\<lparr>getopt := d\<lparr>optarg := None\<rparr>\<rparr>)"
      using cl_parser_done [of s2 argv ext] by simp
    with cl_parser_step [OF g' ne, of ext] h s1 Continue show ?thesis by simp
  qed
qed

lemma handle_pid:
  assumes "optarg (getopt s) = Some v"
  shows "handle_option ext (of_char CHR ''p'') s =
     (if atoi v < 1
      then Exit EXIT_FAILURE
             (s\<lparr>clo := (clo s)\<lparr>pid := atoi v\<rparr>,
                written := written s @ [ERROR_wrong_pid v (atoi v)]\<rparr>)
      else Continue (s\<lparr>clo := (clo s)\<lparr>pid := atoi v\<rparr>\<rparr>))"
  using assms by (simp add: handle_option_def check_optarg_def upd_clo_def emit_def)

lemma in_long_options:
  "\<lparr>name = ''pid'', has_arg = required_argument, val = of_char CHR ''p''\<rparr> \<in> set long_options"
  "\<lparr>name = ''format'', has_arg = required_argument, val = of_char CHR ''l''\<rparr> \<in> set long_options"
  "\<lparr>name = ''expr'', has_arg = required_argument, val = of_char CHR ''e''\<rparr> \<in> set long_options"
  "\<lparr>name = ''full-follow-fork'', has_arg = optional_argument, val = of_char CHR ''f''\<rparr> \<in> set long_options"
  by (simp_all add: long_options_def)

lemma scan_long_pid:
  "getopt_long [prog, ''--pid'', v] optstring long_options getopt_initial =
     (of_char CHR ''p'', getopt_initial\<lparr>optind := 3, optarg := Some v\<rparr>, [])"
  by (simp add: boundary_long [where x = "CHR ''p''" and r = "''id''"]
        long_next [OF in_long_options(1)] getopt_initial_def)

lemma pid_end_to_end:
  "cl_parser ext [prog, ''--pid'', v] (initial_state c fmt) =
     (if atoi v < 1
      then Exited EXIT_FAILURE
             \<lparr>clo = c\<lparr>pid := atoi v\<rparr>, Out_lf_fmt = fmt,
                getopt = getopt_initial\<lparr>optind := 3, optarg := Some v\<rparr>,
                written = [ERROR_wrong_pid v (atoi v)]\<rparr>
      else Returned 3
             \<lparr>clo = c\<lparr>pid := atoi v\<rparr>, Out_lf_fmt = fmt,
                getopt = getopt_initial\<lparr>optind := 3\<rparr>, written = []\<rparr>)"
proof -
  let ?d = "getopt_initial\<lparr>optind := 3, optarg := Some v\<rparr>"
  let ?s1 = "\<lparr>clo = c, Out_lf_fmt = fmt, getopt = ?d, written = []\<rparr>"
  have "optarg (getopt ?s1) = Some v" by simp
  from run_single [OF scan_long_pid _ handle_pid [OF this, of ext]]
  show ?thesis by (simp add: getopt_initial_def)
qed

text \<open>
  On C strings, which hold no NUL character, \<^verbatim>\<open>strcasecmp\<close> returns 0 exactly for
  strings that are equal once every letter is lower-cased.
\<close>

lemma tolower_eq_NUL: "tolower c = CHR 0x00 \<longleftrightarrow> c = CHR 0x00"
proof
  assume z: "tolower c = CHR 0x00"
  show "c = CHR 0x00"
  proof (rule ccontr)
    assume "c \<noteq> CHR 0x00"
    with z have up: "65 \<le> (of_char c :: nat)" "(of_char c :: nat) \<le> 90"
      and "char_of ((of_char c :: nat) + 32) = CHR 0x00"
      by (auto simp: tolower_def split: if_splits)
    then have "(of_char (char_of ((of_char c :: nat) + 32)) :: nat) = of_char (CHR 0x00)"
      by simp
    then have "((of_char c :: nat) + 32) mod 256 = 0"
      by (simp add: of_char_of)
    with up show False by presburger
  qed
next
  assume "c = CHR 0x00"
  then show "tolower c = CHR 0x00" by (simp add: tolower_def)
qed

lemma of_char_eq_0: "(of_char c :: int) = 0 \<longleftrightarrow> c = CHR 0x00"
  using of_char_eq_iff [of c "CHR 0x00", where ?'a = int] by simp

lemma strcasecmp_eq_0:
  assumes "CHR 0x00 \<notin> set a" and "CHR 0x00 \<notin> set b"
  shows "strcasecmp a b = 0 \<longleftrightarrow> map tolower a = map tolower b"
  using assms
proof (induction a b rule: strcasecmp.induct)
  case 1
  then show ?case by simp
next
  case (2 b bs)
  then have "tolower b \<noteq> CHR 0x00" by (auto simp: tolower_eq_NUL)
  then show ?case by (simp add: of_char_eq_0)
next
  case (3 a as)
  then have "tolower a \<noteq> CHR 0x00" by (auto simp: tolower_eq_NUL)
  then show ?case by (simp add: of_char_eq_0)
next
  case (4 a as b bs)
  then show ?case by auto
qed


subsection \<open>The pid option\<close>

text \<open>
  What \<^verbatim>\<open>atoi\<close> computes, in terms of the shape of its argument: white space, an
  optional sign, decimal digits, and a rest that is ignored.
\<close>

lemma digits_value_run:
  assumes "\<forall>c\<in>set ds. isdigit c" and "rest = [] \<or> \<not> isdigit (hd rest)"
  shows "digits_value acc (ds @ rest) =
           acc * 10 ^ length ds
           + (\<Sum>i<length ds. (of_char (ds ! i) - 48) * 10 ^ (length ds - 1 - i))"
  using assms(1)
proof (induction ds arbitrary: acc)
  case Nil
  from assms(2) show ?case by (cases rest) simp_all
next
  case (Cons c cs)
  then have c: "isdigit c" and cs: "\<forall>c\<in>set cs. isdigit c" by simp_all
  have "digits_value acc ((c # cs) @ rest) = digits_value (acc * 10 + (of_char c - 48)) (cs @ rest)"
    using c by simp
  also have "\<dots> = (acc * 10 + (of_char c - 48)) * 10 ^ length cs
                 + (\<Sum>i<length cs. (of_char (cs ! i) - 48) * 10 ^ (length cs - 1 - i))"
    by (rule Cons.IH [OF cs])
  also have "\<dots> = acc * 10 ^ length (c # cs)
                 + (\<Sum>i<length (c # cs). (of_char ((c # cs) ! i) - 48) * 10 ^ (length (c # cs) - 1 - i))"
    by (simp add: sum.lessThan_Suc_shift algebra_simps del: sum.lessThan_Suc)
  finally show ?case .
qed

lemma dropWhile_isspace_prefix:
  assumes "\<forall>c\<in>set ws. isspace c" and "u = [] \<or> \<not> isspace (hd u)"
  shows "dropWhile isspace (ws @ u) = u"
proof -
  from assms(1) have "dropWhile isspace (ws @ u) = dropWhile isspace u"
    by (intro dropWhile_append2) simp
  with assms(2) show ?thesis by (cases u) auto
qed

lemma strtol10_shape:
  assumes ws: "\<forall>c\<in>set ws. isspace c"
    and sg: "sg = [] \<or> sg = ''+'' \<or> sg = ''-''"
    and ds: "\<forall>c\<in>set ds. isdigit c"
    and rest: "rest = [] \<or> \<not> isdigit (hd rest)"
    and bare: "sg = [] \<and> ds = [] \<and> rest \<noteq> [] \<longrightarrow>
                 \<not> isspace (hd rest) \<and> hd rest \<noteq> CHR ''+'' \<and> hd rest \<noteq> CHR ''-''"
  shows "strtol10 (ws @ sg @ ds @ rest) =
           (if sg = ''-''
            then max (- (2 ^ 63))
                   (- (\<Sum>i<length ds. (of_char (ds ! i) - 48) * 10 ^ (length ds - 1 - i)))
            else min (2 ^ 63 - 1)
                   (\<Sum>i<length ds. (of_char (ds ! i) - 48) * 10 ^ (length ds - 1 - i)))"
proof -
  let ?n = "\<Sum>i<length ds. (of_char (ds ! i) - 48) * 10 ^ (length ds - 1 - i)"
  have dv: "digits_value 0 (ds @ rest) = ?n"
    using digits_value_run [OF ds rest, of 0] by simp
  have nsp: "\<not> isspace CHR ''-''" "\<not> isspace CHR ''+''" by (simp_all add: isspace_def)
  have dsp: "\<not> isspace c" if "isdigit c" for c
    using that by (auto simp: isspace_def isdigit_def)
  have dsg: "c \<noteq> CHR ''-'' \<and> c \<noteq> CHR ''+''" if "isdigit c" for c
    using that by (auto simp: isdigit_def)
  from sg consider (minus) "sg = ''-''" | (plus) "sg = ''+''" | (none) "sg = []" by auto
  then show ?thesis
  proof cases
    case minus
    have "dropWhile isspace (ws @ CHR ''-'' # ds @ rest) = CHR ''-'' # ds @ rest"
      by (rule dropWhile_isspace_prefix [OF ws]) (simp add: nsp)
    with minus dv show ?thesis by (simp add: strtol10_def LONG_MIN_def)
  next
    case plus
    have "dropWhile isspace (ws @ CHR ''+'' # ds @ rest) = CHR ''+'' # ds @ rest"
      by (rule dropWhile_isspace_prefix [OF ws]) (simp add: nsp)
    with plus dv show ?thesis by (simp add: strtol10_def LONG_MAX_def)
  next
    case none
    show ?thesis
    proof (cases "ds @ rest")
      case Nil
      from ws have e: "dropWhile isspace ws = []" by simp
      from Nil none show ?thesis
        by (simp add: strtol10_def LONG_MAX_def Let_def e)
    next
      case (Cons c r)
      have c: "\<not> isspace c \<and> c \<noteq> CHR ''-'' \<and> c \<noteq> CHR ''+''"
      proof (cases ds)
        case Nil
        with Cons none bare show ?thesis by auto
      next
        case (Cons d ds')
        with \<open>ds @ rest = c # r\<close> ds have "isdigit c" by auto
        with dsp dsg show ?thesis by blast
      qed
      then have "dropWhile isspace (ws @ ds @ rest) = ds @ rest"
        using Cons by (intro dropWhile_isspace_prefix [OF ws]) simp
      with none Cons c dv show ?thesis
        by (simp add: strtol10_def LONG_MAX_def)
    qed
  qed
qed

lemma atoi_decomposition:
  "\<exists>ws sg ds rest.
      v = ws @ sg @ ds @ rest \<and> (\<forall>c\<in>set ws. isspace c)
      \<and> (sg = [] \<or> sg = ''+'' \<or> sg = ''-'') \<and> (\<forall>c\<in>set ds. isdigit c)
      \<and> (rest = [] \<or> \<not> isdigit (hd rest))
      \<and> (sg = [] \<and> ds = [] \<and> rest \<noteq> [] \<longrightarrow>
            \<not> isspace (hd rest) \<and> hd rest \<noteq> CHR ''+'' \<and> hd rest \<noteq> CHR ''-'')"
proof -
  let ?ws = "takeWhile isspace v" and ?t = "dropWhile isspace v"
  have v: "v = ?ws @ ?t" by simp
  have ws: "\<forall>c\<in>set ?ws. isspace c" by (auto dest: set_takeWhileD)
  have t: "?t = [] \<or> \<not> isspace (hd ?t)" by (metis hd_dropWhile)
  have split: "u = takeWhile isdigit u @ dropWhile isdigit u"
    "\<forall>c\<in>set (takeWhile isdigit u). isdigit c"
    "dropWhile isdigit u = [] \<or> \<not> isdigit (hd (dropWhile isdigit u))" for u
  proof -
    show "u = takeWhile isdigit u @ dropWhile isdigit u" by simp
    show "\<forall>c\<in>set (takeWhile isdigit u). isdigit c" by (auto dest: set_takeWhileD)
    show "dropWhile isdigit u = [] \<or> \<not> isdigit (hd (dropWhile isdigit u))"
      by (metis hd_dropWhile)
  qed
  show ?thesis
  proof (cases ?t)
    case Nil
    with v ws show ?thesis
      by (intro exI [of _ ?ws] exI [of _ "[]"]) simp
  next
    case (Cons c r)
    consider (minus) "c = CHR ''-''" | (plus) "c = CHR ''+''"
      | (other) "c \<noteq> CHR ''-''" "c \<noteq> CHR ''+''" by auto
    then show ?thesis
    proof cases
      case minus
      with v Cons have "v = ?ws @ ''-'' @ takeWhile isdigit r @ dropWhile isdigit r" by simp
      with ws split [of r] show ?thesis
        by (intro exI [of _ ?ws] exI [of _ "''-''"] exI [of _ "takeWhile isdigit r"]
              exI [of _ "dropWhile isdigit r"]) simp
    next
      case plus
      with v Cons have "v = ?ws @ ''+'' @ takeWhile isdigit r @ dropWhile isdigit r" by simp
      with ws split [of r] show ?thesis
        by (intro exI [of _ ?ws] exI [of _ "''+''"] exI [of _ "takeWhile isdigit r"]
              exI [of _ "dropWhile isdigit r"]) simp
    next
      case other
      from v have e: "v = ?ws @ [] @ takeWhile isdigit ?t @ dropWhile isdigit ?t" by simp
      have b: "takeWhile isdigit ?t = [] \<and> dropWhile isdigit ?t \<noteq> [] \<longrightarrow>
               \<not> isspace (hd (dropWhile isdigit ?t)) \<and> hd (dropWhile isdigit ?t) \<noteq> CHR ''+''
               \<and> hd (dropWhile isdigit ?t) \<noteq> CHR ''-''"
      proof (intro impI, elim conjE)
        assume "takeWhile isdigit ?t = []"
        then have "dropWhile isdigit ?t = ?t" using split(1) [of ?t] by simp
        with Cons other t show "\<not> isspace (hd (dropWhile isdigit ?t))
            \<and> hd (dropWhile isdigit ?t) \<noteq> CHR ''+'' \<and> hd (dropWhile isdigit ?t) \<noteq> CHR ''-''"
          by simp
      qed
      from e ws split(2,3) [of ?t] b show ?thesis
        by (intro exI [of _ ?ws] exI [of _ "[]"] exI [of _ "takeWhile isdigit ?t"]
              exI [of _ "dropWhile isdigit ?t"]) simp
    qed
  qed
qed

lemma atoi_shape:
  assumes "\<forall>c\<in>set ws. isspace c"
    and "sg = [] \<or> sg = ''+'' \<or> sg = ''-''"
    and "\<forall>c\<in>set ds. isdigit c"
    and "rest = [] \<or> \<not> isdigit (hd rest)"
    and "sg = [] \<and> ds = [] \<and> rest \<noteq> [] \<longrightarrow>
           \<not> isspace (hd rest) \<and> hd rest \<noteq> CHR ''+'' \<and> hd rest \<noteq> CHR ''-''"
  shows "atoi (ws @ sg @ ds @ rest) =
           ((if sg = ''-''
             then max (- (2 ^ 63))
                    (- (\<Sum>i<length ds. (of_char (ds ! i) - 48) * 10 ^ (length ds - 1 - i)))
             else min (2 ^ 63 - 1)
                    (\<Sum>i<length ds. (of_char (ds ! i) - 48) * 10 ^ (length ds - 1 - i)))
            + 2 ^ 31) mod 2 ^ 32 - 2 ^ 31"
  unfolding atoi_def int_of_long_def strtol10_shape [OF assms] ..

lemma pid_runs:
  "cl_parser ext [prog, ''--pid'', ''0''] (initial_state c fmt) =
       Exited EXIT_FAILURE
         \<lparr>clo = c\<lparr>pid := 0\<rparr>, Out_lf_fmt = fmt,
            getopt = getopt_initial\<lparr>optind := 3, optarg := Some ''0''\<rparr>,
            written = [ERROR_wrong_pid ''0'' 0]\<rparr>"
  "cl_parser ext [prog, ''--pid'', ''-5''] (initial_state c fmt) =
       Exited EXIT_FAILURE
         \<lparr>clo = c\<lparr>pid := - 5\<rparr>, Out_lf_fmt = fmt,
            getopt = getopt_initial\<lparr>optind := 3, optarg := Some ''-5''\<rparr>,
            written = [ERROR_wrong_pid ''-5'' (- 5)]\<rparr>"
  "cl_parser ext [prog, ''--pid'', ''abc''] (initial_state c fmt) =
       Exited EXIT_FAILURE
         \<lparr>clo = c\<lparr>pid := 0\<rparr>, Out_lf_fmt = fmt,
            getopt = getopt_initial\<lparr>optind := 3, optarg := Some ''abc''\<rparr>,
            written = [ERROR_wrong_pid ''abc'' 0]\<rparr>"
  "cl_parser ext [prog, ''--pid'', ''42''] (initial_state c fmt) =
       Returned 3
         \<lparr>clo = c\<lparr>pid := 42\<rparr>, Out_lf_fmt = fmt,
            getopt = getopt_initial\<lparr>optind := 3\<rparr>, written = []\<rparr>"
  "cl_parser ext [prog, ''--pid'', ''12abc''] (initial_state c fmt) =
       Returned 3
         \<lparr>clo = c\<lparr>pid := 12\<rparr>, Out_lf_fmt = fmt,
            getopt = getopt_initial\<lparr>optind := 3\<rparr>, written = []\<rparr>"
  "cl_parser ext [prog, ''--pid'', ''4294967297''] (initial_state c fmt) =
       Returned 3
         \<lparr>clo = c\<lparr>pid := 1\<rparr>, Out_lf_fmt = fmt,
            getopt = getopt_initial\<lparr>optind := 3\<rparr>, written = []\<rparr>"
  "cl_parser ext [prog, ''--pid'', ''-2147483649''] (initial_state c fmt) =
       Returned 3
         \<lparr>clo = c\<lparr>pid := 2147483647\<rparr>, Out_lf_fmt = fmt,
            getopt = getopt_initial\<lparr>optind := 3\<rparr>, written = []\<rparr>"
proof -
  have a: "atoi ''0'' = 0" "atoi ''-5'' = - 5" "atoi ''abc'' = 0" "atoi ''42'' = 42"
    "atoi ''12abc'' = 12" "atoi ''4294967297'' = 1" "atoi ''-2147483649'' = 2147483647"
    by (simp_all add: atoi_defs)
  show "cl_parser ext [prog, ''--pid'', ''0''] (initial_state c fmt) =
       Exited EXIT_FAILURE
         \<lparr>clo = c\<lparr>pid := 0\<rparr>, Out_lf_fmt = fmt,
            getopt = getopt_initial\<lparr>optind := 3, optarg := Some ''0''\<rparr>,
            written = [ERROR_wrong_pid ''0'' 0]\<rparr>"
    by (simp add: pid_end_to_end a)
  show "cl_parser ext [prog, ''--pid'', ''-5''] (initial_state c fmt) =
       Exited EXIT_FAILURE
         \<lparr>clo = c\<lparr>pid := - 5\<rparr>, Out_lf_fmt = fmt,
            getopt = getopt_initial\<lparr>optind := 3, optarg := Some ''-5''\<rparr>,
            written = [ERROR_wrong_pid ''-5'' (- 5)]\<rparr>"
    by (simp add: pid_end_to_end a)
  show "cl_parser ext [prog, ''--pid'', ''abc''] (initial_state c fmt) =
       Exited EXIT_FAILURE
         \<lparr>clo = c\<lparr>pid := 0\<rparr>, Out_lf_fmt = fmt,
            getopt = getopt_initial\<lparr>optind := 3, optarg := Some ''abc''\<rparr>,
            written = [ERROR_wrong_pid ''abc'' 0]\<rparr>"
    by (simp add: pid_end_to_end a)
  show "cl_parser ext [prog, ''--pid'', ''42''] (initial_state c fmt) =
       Returned 3
         \<lparr>clo = c\<lparr>pid := 42\<rparr>, Out_lf_fmt = fmt,
            getopt = getopt_initial\<lparr>optind := 3\<rparr>, written = []\<rparr>"
    by (simp add: pid_end_to_end a)
  show "cl_parser ext [prog, ''--pid'', ''12abc''] (initial_state c fmt) =
       Returned 3
         \<lparr>clo = c\<lparr>pid := 12\<rparr>, Out_lf_fmt = fmt,
            getopt = getopt_initial\<lparr>optind := 3\<rparr>, written = []\<rparr>"
    by (simp add: pid_end_to_end a)
  show "cl_parser ext [prog, ''--pid'', ''4294967297''] (initial_state c fmt) =
       Returned 3
         \<lparr>clo = c\<lparr>pid := 1\<rparr>, Out_lf_fmt = fmt,
            getopt = getopt_initial\<lparr>optind := 3\<rparr>, written = []\<rparr>"
    by (simp add: pid_end_to_end a)
  show "cl_parser ext [prog, ''--pid'', ''-2147483649''] (initial_state c fmt) =
       Returned 3
         \<lparr>clo = c\<lparr>pid := 2147483647\<rparr>, Out_lf_fmt = fmt,
            getopt = getopt_initial\<lparr>optind := 3\<rparr>, written = []\<rparr>"
    by (simp add: pid_end_to_end a)
qed

text \<open>
  Claim C1, as the claim states it, fails. The value is converted with \<^verbatim>\<open>atoi\<close>,
  which does not report a failed parse and does not keep numbers outside the range of
  \<^verbatim>\<open>int\<close>: \<^verbatim>\<open>--pid 12abc\<close>, whose value is not an integer, is accepted with
  \<^verbatim>\<open>pid = 12\<close>, and \<^verbatim>\<open>--pid -2147483649\<close>, an integer below 1, is accepted with
  \<^verbatim>\<open>pid = 2147483647\<close>.
\<close>

theorem pid_accepted_though_not_a_number_counterexample:
  "cl_parser sample_externals [''vltrace'', ''--pid'', ''12abc''] (initial_state zero_options 0) =
     Returned 3
       \<lparr>clo = zero_options\<lparr>pid := 12\<rparr>, Out_lf_fmt = 0,
          getopt = getopt_initial\<lparr>optind := 3\<rparr>, written = []\<rparr>
   \<and> cl_parser sample_externals [''vltrace'', ''--pid'', ''-2147483649'']
         (initial_state zero_options 0) =
       Returned 3
         \<lparr>clo = zero_options\<lparr>pid := 2147483647\<rparr>, Out_lf_fmt = 0,
            getopt = getopt_initial\<lparr>optind := 3\<rparr>, written = []\<rparr>"
  by (simp add: pid_runs)

text \<open>
  Claim C1, amended. Every value splits into white space, an optional sign, a run of
  decimal digits (possibly empty) and a rest that does not start with a digit. Whenever
  the pid option reaches the dispatcher with such a value, the number \<open>n\<close> the digits
  denote (0 for no digits) is negated for the sign \<^verbatim>\<open>-\<close>, cut to the range of a 64-bit
  \<^verbatim>\<open>long\<close>, and its low 32 bits are read as a signed \<^verbatim>\<open>int\<close> \<open>r\<close>; the rest is
  ignored. If \<open>r\<close> is below 1 it is reported with \<^verbatim>\<open>ERROR\<close> and the process ends with
  \<^verbatim>\<open>EXIT_FAILURE\<close>, otherwise \<open>r\<close> is stored in \<^verbatim>\<open>pid\<close> and parsing goes on. The
  command lines \<^verbatim>\<open>--pid 0\<close>, \<^verbatim>\<open>--pid -5\<close> and \<^verbatim>\<open>--pid abc\<close> end with the
  invalid-value error; \<^verbatim>\<open>--pid 42\<close> returns with \<^verbatim>\<open>pid = 42\<close>, \<^verbatim>\<open>--pid 12abc\<close>
  with \<^verbatim>\<open>pid = 12\<close> and \<^verbatim>\<open>--pid 4294967297\<close> with \<^verbatim>\<open>pid = 1\<close>.
\<close>

theorem pid_option_atoi:
  "(optarg (getopt s) = Some (ws @ sg @ ds @ rest)
      \<and> (\<forall>c\<in>set ws. isspace c) \<and> (sg = [] \<or> sg = ''+'' \<or> sg = ''-'')
      \<and> (\<forall>c\<in>set ds. isdigit c) \<and> (rest = [] \<or> \<not> isdigit (hd rest))
      \<and> (sg = [] \<and> ds = [] \<and> rest \<noteq> [] \<longrightarrow>
            \<not> isspace (hd rest) \<and> hd rest \<noteq> CHR ''+'' \<and> hd rest \<noteq> CHR ''-'') \<longrightarrow>
    (let n = (\<Sum>i<length ds. (of_char (ds ! i) - 48) * 10 ^ (length ds - 1 - i));
         l = (if sg = ''-'' then max (- (2 ^ 63)) (- n) else min (2 ^ 63 - 1) n);
         r = (l + 2 ^ 31) mod 2 ^ 32 - 2 ^ 31
     in handle_option ext (of_char CHR ''p'') s =
          (if r < 1
           then Exit EXIT_FAILURE
                  (s\<lparr>clo := (clo s)\<lparr>pid := r\<rparr>,
                     written := written s @ [ERROR_wrong_pid (ws @ sg @ ds @ rest) r]\<rparr>)
           else Continue (s\<lparr>clo := (clo s)\<lparr>pid := r\<rparr>\<rparr>))))
   \<and> (\<exists>ws sg ds rest.
         v = ws @ sg @ ds @ rest \<and> (\<forall>c\<in>set ws. isspace c)
         \<and> (sg = [] \<or> sg = ''+'' \<or> sg = ''-'') \<and> (\<forall>c\<in>set ds. isdigit c)
         \<and> (rest = [] \<or> \<not> isdigit (hd rest))
         \<and> (sg = [] \<and> ds = [] \<and> rest \<noteq> [] \<longrightarrow>
               \<not> isspace (hd rest) \<and> hd rest \<noteq> CHR ''+'' \<and> hd rest \<noteq> CHR ''-''))
   \<and> cl_parser ext [prog, ''--pid'', ''0''] (initial_state c fmt) =
       Exited EXIT_FAILURE
         \<lparr>clo = c\<lparr>pid := 0\<rparr>, Out_lf_fmt = fmt,
            getopt = getopt_initial\<lparr>optind := 3, optarg := Some ''0''\<rparr>,
            written = [ERROR_wrong_pid ''0'' 0]\<rparr>
   \<and> cl_parser ext [prog, ''--pid'', ''-5''] (initial_state c fmt) =
       Exited EXIT_FAILURE
         \<lparr>clo = c\<lparr>pid := - 5\<rparr>, Out_lf_fmt = fmt,
            getopt = getopt_initial\<lparr>optind := 3, optarg := Some ''-5''\<rparr>,
            written = [ERROR_wrong_pid ''-5'' (- 5)]\<rparr>
   \<and> cl_parser ext [prog, ''--pid'', ''abc''] (initial_state c fmt) =
       Exited EXIT_FAILURE
         \<lparr>clo = c\<lparr>pid := 0\<rparr>, Out_lf_fmt = fmt,
            getopt = getopt_initial\<lparr>optind := 3, optarg := Some ''abc''\<rparr>,
            written = [ERROR_wrong_pid ''abc'' 0]\<rparr>
   \<and> cl_parser ext [prog, ''--pid'', ''42''] (initial_state c fmt) =
       Returned 3
         \<lparr>clo = c\<lparr>pid := 42\<rparr>, Out_lf_fmt = fmt,
            getopt = getopt_initial\<lparr>optind := 3\<rparr>, written = []\<rparr>
   \<and> cl_parser ext [prog, ''--pid'', ''12abc''] (initial_state c fmt) =
       Returned 3
         \<lparr>clo = c\<lparr>pid := 12\<rparr>, Out_lf_fmt = fmt,
            getopt = getopt_initial\<lparr>optind := 3\<rparr>, written = []\<rparr>
   \<and> cl_parser ext [prog, ''--pid'', ''4294967297''] (initial_state c fmt) =
       Returned 3
         \<lparr>clo = c\<lparr>pid := 1\<rparr>, Out_lf_fmt = fmt,
            getopt = getopt_initial\<lparr>optind := 3\<rparr>, written = []\<rparr>"
proof -
  have h: "optarg (getopt s) = Some (ws @ sg @ ds @ rest)
      \<and> (\<forall>c\<in>set ws. isspace c) \<and> (sg = [] \<or> sg = ''+'' \<or> sg = ''-'')
      \<and> (\<forall>c\<in>set ds. isdigit c) \<and> (rest = [] \<or> \<not> isdigit (hd rest))
      \<and> (sg = [] \<and> ds = [] \<and> rest \<noteq> [] \<longrightarrow>
            \<not> isspace (hd rest) \<and> hd rest \<noteq> CHR ''+'' \<and> hd rest \<noteq> CHR ''-'') \<longrightarrow>
    (let n = (\<Sum>i<length ds. (of_char (ds ! i) - 48) * 10 ^ (length ds - 1 - i));
         l = (if sg = ''-'' then max (- (2 ^ 63)) (- n) else min (2 ^ 63 - 1) n);
         r = (l + 2 ^ 31) mod 2 ^ 32 - 2 ^ 31
     in handle_option ext (of_char CHR ''p'') s =
          (if r < 1
           then Exit EXIT_FAILURE
                  (s\<lparr>clo := (clo s)\<lparr>pid := r\<rparr>,
                     written := written s @ [ERROR_wrong_pid (ws @ sg @ ds @ rest) r]\<rparr>)
           else Continue (s\<lparr>clo := (clo s)\<lparr>pid := r\<rparr>\<rparr>)))"
  proof (intro impI, elim conjE)
    assume oa: "optarg (getopt s) = Some (ws @ sg @ ds @ rest)"
      and c: "\<forall>c\<in>set ws. isspace c" "sg = [] \<or> sg = ''+'' \<or> sg = ''-''"
        "\<forall>c\<in>set ds. isdigit c" "rest = [] \<or> \<not> isdigit (hd rest)"
        "sg = [] \<and> ds = [] \<and> rest \<noteq> [] \<longrightarrow>
            \<not> isspace (hd rest) \<and> hd rest \<noteq> CHR ''+'' \<and> hd rest \<noteq> CHR ''-''"
    show "let n = (\<Sum>i<length ds. (of_char (ds ! i) - 48) * 10 ^ (length ds - 1 - i));
         l = (if sg = ''-'' then max (- (2 ^ 63)) (- n) else min (2 ^ 63 - 1) n);
         r = (l + 2 ^ 31) mod 2 ^ 32 - 2 ^ 31
     in handle_option ext (of_char CHR ''p'') s =
          (if r < 1
           then Exit EXIT_FAILURE
                  (s\<lparr>clo := (clo s)\<lparr>pid := r\<rparr>,
                     written := written s @ [ERROR_wrong_pid (ws @ sg @ ds @ rest) r]\<rparr>)
           else Continue (s\<lparr>clo := (clo s)\<lparr>pid := r\<rparr>\<rparr>))"
      unfolding Let_def handle_pid [OF oa] atoi_shape [OF c] ..
  qed
  from h atoi_decomposition [of v] show ?thesis
    by (simp only: pid_runs simp_thms)
qed

theorem pid_option_atoi_witness:
  "optarg (getopt \<lparr>clo = zero_options, Out_lf_fmt = 0,
                    getopt = getopt_initial\<lparr>optind := 3, optarg := Some ''12abc''\<rparr>,
                    written = []\<rparr>) = Some ([] @ [] @ ''12'' @ ''abc'')
   \<and> isdigit CHR ''1'' \<and> isdigit CHR ''2'' \<and> \<not> isdigit (hd ''abc'')
   \<and> handle_option sample_externals (of_char CHR ''p'')
         \<lparr>clo = zero_options, Out_lf_fmt = 0,
            getopt = getopt_initial\<lparr>optind := 3, optarg := Some ''12abc''\<rparr>, written = []\<rparr> =
       Continue \<lparr>clo = zero_options\<lparr>pid := 12\<rparr>, Out_lf_fmt = 0,
                  getopt = getopt_initial\<lparr>optind := 3, optarg := Some ''12abc''\<rparr>, written = []\<rparr>"
  using pid_option_atoi [of "\<lparr>clo = zero_options, Out_lf_fmt = 0,
            getopt = getopt_initial\<lparr>optind := 3, optarg := Some ''12abc''\<rparr>, written = []\<rparr>"
          "[]" "[]" "''12''" "''abc''" sample_externals "''x''" "''vltrace''" zero_options 0]
  by (simp add: isdigit_def Let_def)


lemma long_val_positive:
  assumes "p \<in> set long_options"
  shows "0 < val p"
  using assms unfolding long_options_def by auto

lemma run_long_value:
  assumes "p \<in> set long_options" and "has_arg p = required_argument"
  shows "cl_parser ext [prog, ''--'' @ name p, v] (initial_state c fmt) =
           (case handle_option ext (val p)
                   \<lparr>clo = c, Out_lf_fmt = fmt,
                      getopt = getopt_initial\<lparr>optarg := Some v, optind := 3\<rparr>, written = []\<rparr> of
              Exit status s2 \<Rightarrow> Exited status s2
            | Continue s2 \<Rightarrow> Returned 3 (s2\<lparr>getopt := getopt_initial\<lparr>optind := 3\<rparr>\<rparr>))"
proof -
  have g: "getopt_long [prog, ''--'' @ name p, v] optstring long_options getopt_initial =
             (val p, getopt_initial\<lparr>optarg := Some v, optind := 3\<rparr>, [])"
    using scan_long_value [OF assms, of getopt_initial "[prog, ''--'' @ name p, v]"]
    by (simp add: getopt_initial_def)
  from long_val_positive [OF assms(1)] have ne: "val p \<noteq> - 1" by simp
  from run_single [OF g ne refl, of ext c fmt] show ?thesis
    by (simp add: getopt_initial_def split: step.splits)
qed

lemma handle_expr:
  assumes "optarg (getopt s) = Some v" and "CHR 0x00 \<notin> set v" and "x = of_char CHR ''e''"
  shows "handle_option ext x s =
     (if map tolower v = ''list'' \<or> map tolower v = ''help''
      then Exit EXIT_SUCCESS
             (s\<lparr>written := written s @ [INFO Supported_expressions, INFO Supported_sets_hint]\<rparr>)
      else if map tolower v = ''trace=help'' \<or> map tolower v = ''trace=list''
      then Exit EXIT_SUCCESS
             (s\<lparr>written := written s @ [Fprint_trace_list Stderr, INFO Combine_sets_hint]\<rparr>)
      else Continue (s\<lparr>clo := (clo s)\<lparr>expr := Some v\<rparr>\<rparr>))"
proof -
  have c: "strcasecmp v ''list'' = 0 \<longleftrightarrow> map tolower v = ''list''"
    "strcasecmp v ''help'' = 0 \<longleftrightarrow> map tolower v = ''help''"
    "strcasecmp v ''trace=help'' = 0 \<longleftrightarrow> map tolower v = ''trace=help''"
    "strcasecmp v ''trace=list'' = 0 \<longleftrightarrow> map tolower v = ''trace=list''"
    using assms(2) by (simp_all add: strcasecmp_eq_0) (simp_all add: tolower_def)
  show ?thesis
    using assms(1,3)
    by (simp add: handle_option_def check_optarg_def upd_clo_def emit_def c)
qed

lemma handle_format:
  assumes "optarg (getopt s) = Some v" and "CHR 0x00 \<notin> set v" and "x = of_char CHR ''l''"
  shows "handle_option ext x s =
     (if map tolower v = ''list'' \<or> map tolower v = ''help''
      then Exit EXIT_SUCCESS (s\<lparr>written := written s @ [INFO Supported_formats]\<rparr>)
      else Continue (s\<lparr>clo := (clo s)\<lparr>out_fmt_str := Some v\<rparr>,
                      Out_lf_fmt := out_fmt_str2enum ext v\<rparr>))"
proof -
  have c: "strcasecmp v ''list'' = 0 \<longleftrightarrow> map tolower v = ''list''"
    "strcasecmp v ''help'' = 0 \<longleftrightarrow> map tolower v = ''help''"
    using assms(2) by (simp_all add: strcasecmp_eq_0) (simp_all add: tolower_def)
  show ?thesis
    using assms(1,3)
    by (simp add: handle_option_def check_optarg_def upd_clo_def emit_def c Let_def)
qed

lemma handle_builtin_list:
  "x = of_char CHR ''B'' \<Longrightarrow> handle_option ext x s =
     Exit (if print_syscalls_table ext = 1 then EXIT_SUCCESS
           else if print_syscalls_table ext = 0 then EXIT_FAILURE
           else print_syscalls_table ext)
          (s\<lparr>written := written s @ [Print_syscalls_table Stdout]\<rparr>)"
  by (simp add: handle_option_def emit_def Let_def)

lemma expr_runs:
  "cl_parser ext [prog, ''--expr'', ''trace=list''] (initial_state c fmt) =
     Exited EXIT_SUCCESS
       \<lparr>clo = c, Out_lf_fmt = fmt,
          getopt = getopt_initial\<lparr>optarg := Some ''trace=list'', optind := 3\<rparr>,
          written = [Fprint_trace_list Stderr, INFO Combine_sets_hint]\<rparr>"
  "cl_parser ext [prog, ''--expr'', ''trace=HELP''] (initial_state c fmt) =
     Exited EXIT_SUCCESS
       \<lparr>clo = c, Out_lf_fmt = fmt,
          getopt = getopt_initial\<lparr>optarg := Some ''trace=HELP'', optind := 3\<rparr>,
          written = [Fprint_trace_list Stderr, INFO Combine_sets_hint]\<rparr>"
  "cl_parser ext [prog, ''--expr'', ''openat''] (initial_state c fmt) =
     Returned 3
       \<lparr>clo = c\<lparr>expr := Some ''openat''\<rparr>, Out_lf_fmt = fmt,
          getopt = getopt_initial\<lparr>optind := 3\<rparr>, written = []\<rparr>"
  using run_long_value [OF in_long_options(3), of ext prog _ c fmt]
  by (simp_all add: handle_expr) (simp_all add: tolower_def char_of_eq_iff take_bit_eq_mod)

lemma of_char_not_minus_one: "(of_char x :: int) \<noteq> - 1"
proof -
  have "0 \<le> (of_nat (of_char x :: nat) :: int)" by simp
  then have "0 \<le> (of_char x :: int)" by (simp only: of_nat_of_char)
  then show ?thesis by simp
qed

lemma run_short_value:
  assumes "x \<in> set ''plseoNK''"
  shows "cl_parser ext [prog, [CHR ''-'', x], v] (initial_state c fmt) =
           (case handle_option ext (of_char x)
                   \<lparr>clo = c, Out_lf_fmt = fmt,
                      getopt = getopt_initial\<lparr>optarg := Some v, optind := 3\<rparr>, written = []\<rparr> of
              Exit status s2 \<Rightarrow> Exited status s2
            | Continue s2 \<Rightarrow> Returned 3 (s2\<lparr>getopt := getopt_initial\<lparr>optind := 3\<rparr>\<rparr>))"
proof -
  have g: "getopt_long [prog, [CHR ''-'', x], v] optstring long_options getopt_initial =
             (of_char x, getopt_initial\<lparr>optarg := Some v, optind := 3\<rparr>, [])"
    using scan_short_value [OF assms, of getopt_initial "[prog, [CHR ''-'', x], v]"]
    by (simp add: getopt_initial_def)
  from run_single [OF g of_char_not_minus_one refl, of ext c fmt] show ?thesis
    by (simp add: getopt_initial_def split: step.splits)
qed

lemma run_short_flag:
  assumes "x \<in> set ''tXhdLRBr''"
  shows "cl_parser ext [prog, [CHR ''-'', x]] (initial_state c fmt) =
           (case handle_option ext (of_char x)
                   \<lparr>clo = c, Out_lf_fmt = fmt,
                      getopt = getopt_initial\<lparr>optind := 2\<rparr>, written = []\<rparr> of
              Exit status s2 \<Rightarrow> Exited status s2
            | Continue s2 \<Rightarrow> Returned 2 (s2\<lparr>getopt := getopt_initial\<lparr>optind := 2\<rparr>\<rparr>))"
proof -
  have g: "getopt_long [prog, [CHR ''-'', x]] optstring long_options getopt_initial =
             (of_char x, getopt_initial\<lparr>optind := 2\<rparr>, [])"
    using scan_short_flag [OF assms, of getopt_initial "[prog, [CHR ''-'', x]]"]
    by (simp add: getopt_initial_def)
  from run_single [OF g of_char_not_minus_one refl, of ext c fmt] show ?thesis
    by (simp add: getopt_initial_def split: step.splits)
qed

lemma run_long_flag:
  assumes "p \<in> set long_options" and "has_arg p \<noteq> required_argument"
  shows "cl_parser ext [prog, ''--'' @ name p] (initial_state c fmt) =
           (case handle_option ext (val p)
                   \<lparr>clo = c, Out_lf_fmt = fmt,
                      getopt = getopt_initial\<lparr>optind := 2\<rparr>, written = []\<rparr> of
              Exit status s2 \<Rightarrow> Exited status s2
            | Continue s2 \<Rightarrow> Returned 2 (s2\<lparr>getopt := getopt_initial\<lparr>optind := 2\<rparr>\<rparr>))"
proof -
  have g: "getopt_long [prog, ''--'' @ name p] optstring long_options getopt_initial =
             (val p, getopt_initial\<lparr>optind := 2\<rparr>, [])"
    using scan_long_flag [OF assms, of getopt_initial "[prog, ''--'' @ name p]"]
    by (simp add: getopt_initial_def)
  from long_val_positive [OF assms(1)] have ne: "val p \<noteq> - 1" by simp
  from run_single [OF g ne refl, of ext c fmt] show ?thesis
    by (simp add: getopt_initial_def split: step.splits)
qed

lemma run_short_attached:
  assumes "x \<in> set ''plseoNKf''" and "v \<noteq> []"
  shows "cl_parser ext [prog, CHR ''-'' # x # v] (initial_state c fmt) =
           (case handle_option ext (of_char x)
                   \<lparr>clo = c, Out_lf_fmt = fmt,
                      getopt = getopt_initial\<lparr>optarg := Some v, optind := 2\<rparr>, written = []\<rparr> of
              Exit status s2 \<Rightarrow> Exited status s2
            | Continue s2 \<Rightarrow> Returned 2 (s2\<lparr>getopt := getopt_initial\<lparr>optind := 2\<rparr>\<rparr>))"
proof -
  have g: "getopt_long [prog, CHR ''-'' # x # v] optstring long_options getopt_initial =
             (of_char x, getopt_initial\<lparr>optarg := Some v, optind := 2\<rparr>, [])"
    using scan_short_attached [OF assms, of getopt_initial "[prog, CHR ''-'' # x # v]"]
    by (simp add: getopt_initial_def)
  from run_single [OF g of_char_not_minus_one refl, of ext c fmt] show ?thesis
    by (simp add: getopt_initial_def split: step.splits)
qed

lemma run_long_attached:
  assumes "p \<in> set long_options" and "has_arg p \<noteq> no_argument"
  shows "cl_parser ext [prog, ''--'' @ name p @ CHR ''='' # v] (initial_state c fmt) =
           (case handle_option ext (val p)
                   \<lparr>clo = c, Out_lf_fmt = fmt,
                      getopt = getopt_initial\<lparr>optarg := Some v, optind := 2\<rparr>, written = []\<rparr> of
              Exit status s2 \<Rightarrow> Exited status s2
            | Continue s2 \<Rightarrow> Returned 2 (s2\<lparr>getopt := getopt_initial\<lparr>optind := 2\<rparr>\<rparr>))"
proof -
  have g: "getopt_long [prog, ''--'' @ name p @ CHR ''='' # v] optstring long_options getopt_initial =
             (val p, getopt_initial\<lparr>optarg := Some v, optind := 2\<rparr>, [])"
    using scan_long_attached [OF assms, of getopt_initial "[prog, ''--'' @ name p @ CHR ''='' # v]" v]
    by (simp add: getopt_initial_def)
  from long_val_positive [OF assms(1)] have ne: "val p \<noteq> - 1" by simp
  from run_single [OF g ne refl, of ext c fmt] show ?thesis
    by (simp add: getopt_initial_def split: step.splits)
qed

subsection \<open>The expr option\<close>

text \<open>
  Claim C3. Whenever the expr option reaches the dispatcher with a value \<open>v\<close>: if
  \<open>v\<close> is \<^verbatim>\<open>list\<close> or \<^verbatim>\<open>help\<close> up to the case of its letters, the two lines of
  expression help are written and the process ends with \<^verbatim>\<open>EXIT_SUCCESS\<close>; if it is
  \<^verbatim>\<open>trace=help\<close> or \<^verbatim>\<open>trace=list\<close> up to case, the listing of the syscall sets
  is written and the process ends with \<^verbatim>\<open>EXIT_SUCCESS\<close>; in both cases the options
  structure is as it was. Any other \<open>v\<close> is stored unchanged in \<^verbatim>\<open>expr\<close>. The command
  lines \<^verbatim>\<open>--expr trace=list\<close> and \<^verbatim>\<open>--expr trace=HELP\<close> end with the listing, and
  \<^verbatim>\<open>--expr openat\<close> returns with \<^verbatim>\<open>expr = "openat"\<close>.
\<close>

theorem expr_option_reserved_values:
  "(optarg (getopt s) = Some v \<and> CHR 0x00 \<notin> set v \<longrightarrow>
    handle_option ext (of_char CHR ''e'') s =
     (if map tolower v = ''list'' \<or> map tolower v = ''help''
      then Exit EXIT_SUCCESS
             (s\<lparr>written := written s @ [INFO Supported_expressions, INFO Supported_sets_hint]\<rparr>)
      else if map tolower v = ''trace=help'' \<or> map tolower v = ''trace=list''
      then Exit EXIT_SUCCESS
             (s\<lparr>written := written s @ [Fprint_trace_list Stderr, INFO Combine_sets_hint]\<rparr>)
      else Continue (s\<lparr>clo := (clo s)\<lparr>expr := Some v\<rparr>\<rparr>)))
   \<and> cl_parser ext [prog, ''--expr'', ''trace=list''] (initial_state c fmt) =
       Exited EXIT_SUCCESS
         \<lparr>clo = c, Out_lf_fmt = fmt,
            getopt = getopt_initial\<lparr>optarg := Some ''trace=list'', optind := 3\<rparr>,
            written = [Fprint_trace_list Stderr, INFO Combine_sets_hint]\<rparr>
   \<and> cl_parser ext [prog, ''--expr'', ''trace=HELP''] (initial_state c fmt) =
       Exited EXIT_SUCCESS
         \<lparr>clo = c, Out_lf_fmt = fmt,
            getopt = getopt_initial\<lparr>optarg := Some ''trace=HELP'', optind := 3\<rparr>,
            written = [Fprint_trace_list Stderr, INFO Combine_sets_hint]\<rparr>
   \<and> cl_parser ext [prog, ''--expr'', ''openat''] (initial_state c fmt) =
       Returned 3
         \<lparr>clo = c\<lparr>expr := Some ''openat''\<rparr>, Out_lf_fmt = fmt,
            getopt = getopt_initial\<lparr>optind := 3\<rparr>, written = []\<rparr>"
  using handle_expr [of s v "of_char CHR ''e''" ext] by (simp add: expr_runs)

theorem expr_option_reserved_values_witness:
  "optarg (getopt \<lparr>clo = zero_options, Out_lf_fmt = 0,
                    getopt = getopt_initial\<lparr>optarg := Some ''List'', optind := 3\<rparr>,
                    written = []\<rparr>) = Some ''List''
   \<and> CHR 0x00 \<notin> set ''List''
   \<and> handle_option sample_externals (of_char CHR ''e'')
         \<lparr>clo = zero_options, Out_lf_fmt = 0,
            getopt = getopt_initial\<lparr>optarg := Some ''List'', optind := 3\<rparr>, written = []\<rparr> =
       Exit EXIT_SUCCESS
         \<lparr>clo = zero_options, Out_lf_fmt = 0,
            getopt = getopt_initial\<lparr>optarg := Some ''List'', optind := 3\<rparr>,
            written = [INFO Supported_expressions, INFO Supported_sets_hint]\<rparr>"
  using expr_option_reserved_values [of "\<lparr>clo = zero_options, Out_lf_fmt = 0,
            getopt = getopt_initial\<lparr>optarg := Some ''List'', optind := 3\<rparr>, written = []\<rparr>"
          "''List''" sample_externals "''vltrace''" zero_options 0]
  by (simp add: tolower_def char_of_eq_iff take_bit_eq_mod)

subsection \<open>The format option\<close>

lemma format_runs:
  "cl_parser ext [prog, ''--format'', ''list''] (initial_state c fmt) =
     Exited EXIT_SUCCESS
       \<lparr>clo = c, Out_lf_fmt = fmt,
          getopt = getopt_initial\<lparr>optarg := Some ''list'', optind := 3\<rparr>,
          written = [INFO Supported_formats]\<rparr>"
  "cl_parser ext [prog, ''--format'', ''LIST''] (initial_state c fmt) =
     Exited EXIT_SUCCESS
       \<lparr>clo = c, Out_lf_fmt = fmt,
          getopt = getopt_initial\<lparr>optarg := Some ''LIST'', optind := 3\<rparr>,
          written = [INFO Supported_formats]\<rparr>"
  "cl_parser ext [prog, ''--format'', ''help''] (initial_state c fmt) =
     Exited EXIT_SUCCESS
       \<lparr>clo = c, Out_lf_fmt = fmt,
          getopt = getopt_initial\<lparr>optarg := Some ''help'', optind := 3\<rparr>,
          written = [INFO Supported_formats]\<rparr>"
  "cl_parser ext [prog, ''--format'', ''hex''] (initial_state c fmt) =
     Returned 3
       \<lparr>clo = c\<lparr>out_fmt_str := Some ''hex''\<rparr>, Out_lf_fmt = out_fmt_str2enum ext ''hex'',
          getopt = getopt_initial\<lparr>optind := 3\<rparr>, written = []\<rparr>"
  using run_long_value [OF in_long_options(2), of ext prog _ c fmt]
  by (simp_all add: handle_format) (simp_all add: tolower_def char_of_eq_iff take_bit_eq_mod)

text \<open>
  Claim C4. Whenever the format option reaches the dispatcher with a value that is
  \<^verbatim>\<open>list\<close> or \<^verbatim>\<open>help\<close> up to the case of its letters, the list of formats is
  written and the process ends with \<^verbatim>\<open>EXIT_SUCCESS\<close>, with \<^verbatim>\<open>out_fmt_str\<close> and
  \<^verbatim>\<open>Out_lf_fmt\<close> (and everything else) as they were; any other value is stored in
  \<^verbatim>\<open>out_fmt_str\<close> and \<^verbatim>\<open>Out_lf_fmt\<close> becomes what \<^verbatim>\<open>out_fmt_str2enum\<close> returns
  for it. The command lines \<^verbatim>\<open>--format list\<close>, \<^verbatim>\<open>--format LIST\<close> and
  \<^verbatim>\<open>--format help\<close> take the first path, \<^verbatim>\<open>--format hex\<close> the second.
\<close>

theorem format_option_reserved_values:
  "(optarg (getopt s) = Some v \<and> CHR 0x00 \<notin> set v \<longrightarrow>
    handle_option ext (of_char CHR ''l'') s =
     (if map tolower v = ''list'' \<or> map tolower v = ''help''
      then Exit EXIT_SUCCESS (s\<lparr>written := written s @ [INFO Supported_formats]\<rparr>)
      else Continue (s\<lparr>clo := (clo s)\<lparr>out_fmt_str := Some v\<rparr>,
                      Out_lf_fmt := out_fmt_str2enum ext v\<rparr>)))
   \<and> cl_parser ext [prog, ''--format'', ''list''] (initial_state c fmt) =
       Exited EXIT_SUCCESS
         \<lparr>clo = c, Out_lf_fmt = fmt,
            getopt = getopt_initial\<lparr>optarg := Some ''list'', optind := 3\<rparr>,
            written = [INFO Supported_formats]\<rparr>
   \<and> cl_parser ext [prog, ''--format'', ''LIST''] (initial_state c fmt) =
       Exited EXIT_SUCCESS
         \<lparr>clo = c, Out_lf_fmt = fmt,
            getopt = getopt_initial\<lparr>optarg := Some ''LIST'', optind := 3\<rparr>,
            written = [INFO Supported_formats]\<rparr>
   \<and> cl_parser ext [prog, ''--format'', ''help''] (initial_state c fmt) =
       Exited EXIT_SUCCESS
         \<lparr>clo = c, Out_lf_fmt = fmt,
            getopt = getopt_initial\<lparr>optarg := Some ''help'', optind := 3\<rparr>,
            written = [INFO Supported_formats]\<rparr>
   \<and> cl_parser ext [prog, ''--format'', ''hex''] (initial_state c fmt) =
       Returned 3
         \<lparr>clo = c\<lparr>out_fmt_str := Some ''hex''\<rparr>, Out_lf_fmt = out_fmt_str2enum ext ''hex'',
            getopt = getopt_initial\<lparr>optind := 3\<rparr>, written = []\<rparr>"
  using handle_format [of s v "of_char CHR ''l''" ext] by (simp add: format_runs)

theorem format_option_reserved_values_witness:
  "optarg (getopt \<lparr>clo = zero_options, Out_lf_fmt = 7,
                    getopt = getopt_initial\<lparr>optarg := Some ''Help'', optind := 3\<rparr>,
                    written = []\<rparr>) = Some ''Help''
   \<and> CHR 0x00 \<notin> set ''Help''
   \<and> handle_option sample_externals (of_char CHR ''l'')
         \<lparr>clo = zero_options, Out_lf_fmt = 7,
            getopt = getopt_initial\<lparr>optarg := Some ''Help'', optind := 3\<rparr>, written = []\<rparr> =
       Exit EXIT_SUCCESS
         \<lparr>clo = zero_options, Out_lf_fmt = 7,
            getopt = getopt_initial\<lparr>optarg := Some ''Help'', optind := 3\<rparr>,
            written = [INFO Supported_formats]\<rparr>"
  using format_option_reserved_values [of "\<lparr>clo = zero_options, Out_lf_fmt = 7,
            getopt = getopt_initial\<lparr>optarg := Some ''Help'', optind := 3\<rparr>, written = []\<rparr>"
          "''Help''" sample_externals "''vltrace''" zero_options 0]
  by (simp add: tolower_def char_of_eq_iff take_bit_eq_mod)

subsection \<open>The listing of the built-in syscall table\<close>

text \<open>
  Claim C8. For the option \<^verbatim>\<open>B\<close> the parser calls \<^verbatim>\<open>print_syscalls_table\<close> on the
  standard output and ends the process: with \<^verbatim>\<open>EXIT_SUCCESS\<close> when the routine returned
  1, with \<^verbatim>\<open>EXIT_FAILURE\<close> when it returned 0, and with the returned value itself as
  the argument of \<^verbatim>\<open>exit\<close> otherwise. This holds for the dispatcher in every state and
  for the command lines \<^verbatim>\<open>-B\<close> and \<^verbatim>\<open>--builtin-list\<close>.
\<close>

theorem builtin_list_exit_status:
  "handle_option ext (of_char CHR ''B'') s =
     Exit (if print_syscalls_table ext = 1 then EXIT_SUCCESS
           else if print_syscalls_table ext = 0 then EXIT_FAILURE
           else print_syscalls_table ext)
          (s\<lparr>written := written s @ [Print_syscalls_table Stdout]\<rparr>)
   \<and> cl_parser ext [prog, ''-B''] (initial_state c fmt) =
       Exited (if print_syscalls_table ext = 1 then EXIT_SUCCESS
               else if print_syscalls_table ext = 0 then EXIT_FAILURE
               else print_syscalls_table ext)
         \<lparr>clo = c, Out_lf_fmt = fmt, getopt = getopt_initial\<lparr>optind := 2\<rparr>,
            written = [Print_syscalls_table Stdout]\<rparr>
   \<and> cl_parser ext [prog, ''--builtin-list''] (initial_state c fmt) =
       Exited (if print_syscalls_table ext = 1 then EXIT_SUCCESS
               else if print_syscalls_table ext = 0 then EXIT_FAILURE
               else print_syscalls_table ext)
         \<lparr>clo = c, Out_lf_fmt = fmt, getopt = getopt_initial\<lparr>optind := 2\<rparr>,
            written = [Print_syscalls_table Stdout]\<rparr>"
proof -
  have p: "\<lparr>name = ''builtin-list'', has_arg = no_argument, val = of_char CHR ''B''\<rparr>
             \<in> set long_options"
    by (simp add: long_options_def)
  show ?thesis
    using run_short_flag [of "CHR ''B''" ext prog c fmt] run_long_flag [OF p, of ext prog c fmt]
    by (simp add: handle_builtin_list)
qed


lemma handle_follow_fork:
  assumes "x = of_char CHR ''f''"
  shows "handle_option ext x s =
           Continue (s\<lparr>clo := (clo s)\<lparr>ff_mode := E_FF_FULL,
                        ff_separate_logs :=
                          (if optarg (getopt s) = None then ff_separate_logs (clo s) else True)\<rparr>\<rparr>)"
  using assms by (cases "optarg (getopt s)") (simp_all add: handle_option_def upd_clo_def)

lemma handle_timestamp:
  assumes "x = of_char CHR ''t''"
  shows "handle_option ext x s = Continue (s\<lparr>clo := (clo s)\<lparr>timestamp := True\<rparr>\<rparr>)"
  using assms by (simp add: handle_option_def upd_clo_def)

lemma handle_question_mark:
  assumes "x = of_char CHR ''?''"
  shows "handle_option ext x s =
           Exit EXIT_FAILURE (s\<lparr>written := written s @ [Fprint_help Stderr]\<rparr>)"
  using assms by (simp add: handle_option_def emit_def)

lemma cl_parser_nonoption:
  assumes "nextchar (getopt s) = []" and "0 < optind (getopt s)"
    and "optind (getopt s) < length argv" and "NONOPTION_P (argv ! optind (getopt s))"
  shows "cl_parser ext argv s =
           Returned (optind (getopt s))
             (s\<lparr>getopt := (getopt s)\<lparr>optarg := None\<rparr>, clo := (clo s)\<lparr>command := True\<rparr>\<rparr>)"
  using cl_parser_stop [OF boundary_nonoption [OF assms], of ext] assms(3)
  by (simp add: emit_def upd_clo_def)

lemma cl_parser_dashdash:
  assumes "nextchar (getopt s) = []" and "0 < optind (getopt s)"
    and "optind (getopt s) < length argv" and "argv ! optind (getopt s) = ''--''"
  shows "cl_parser ext argv s =
           Returned (optind (getopt s) + 1)
             (s\<lparr>getopt := (getopt s)\<lparr>optarg := None, optind := optind (getopt s) + 1\<rparr>,
                clo := (clo s)\<lparr>command := (if optind (getopt s) + 1 < length argv then True
                                            else command (clo s))\<rparr>\<rparr>)"
  using cl_parser_stop [OF boundary_dashdash [OF assms], of ext]
  by (simp add: emit_def upd_clo_def)

lemma follow_fork_detached:
  assumes "NONOPTION_P v"
  shows "cl_parser ext [prog, ''-f'', v] (initial_state c fmt) =
           Returned 2
             \<lparr>clo = c\<lparr>ff_mode := E_FF_FULL, command := True\<rparr>, Out_lf_fmt = fmt,
                getopt = getopt_initial\<lparr>optind := 2\<rparr>, written = []\<rparr>"
proof -
  let ?argv = "[prog, ''-f'', v]"
  have g: "getopt_long ?argv optstring long_options (getopt (initial_state c fmt)) =
             (of_char CHR ''f'', getopt_initial\<lparr>optind := 2\<rparr>, [])"
    using scan_short_optional_bare [of getopt_initial ?argv]
    by (simp add: getopt_initial_def initial_state_def)
  let ?s2 = "\<lparr>clo = c\<lparr>ff_mode := E_FF_FULL\<rparr>, Out_lf_fmt = fmt,
               getopt = getopt_initial\<lparr>optind := 2\<rparr>, written = []\<rparr>"
  have h: "handle_option ext (of_char CHR ''f'')
             (emit [] (initial_state c fmt\<lparr>getopt := getopt_initial\<lparr>optind := 2\<rparr>\<rparr>)) =
           Continue ?s2"
    by (simp add: handle_follow_fork emit_def initial_state_def getopt_initial_def)
  have "cl_parser ext ?argv ?s2 =
          Returned 2 (?s2\<lparr>getopt := (getopt ?s2)\<lparr>optarg := None\<rparr>,
                         clo := (clo ?s2)\<lparr>command := True\<rparr>\<rparr>)"
    using cl_parser_nonoption [of ?s2 ?argv ext] assms by (simp add: getopt_initial_def)
  with cl_parser_step [OF g of_char_not_minus_one, of ext] h show ?thesis
    by (simp add: getopt_initial_def)
qed

lemma follow_fork_runs:
  "cl_parser ext [prog, ''-f''] (initial_state c fmt) =
     Returned 2
       \<lparr>clo = c\<lparr>ff_mode := E_FF_FULL\<rparr>, Out_lf_fmt = fmt,
          getopt = getopt_initial\<lparr>optind := 2\<rparr>, written = []\<rparr>"
  "v \<noteq> [] \<Longrightarrow> cl_parser ext [prog, ''-f'' @ v] (initial_state c fmt) =
     Returned 2
       \<lparr>clo = c\<lparr>ff_mode := E_FF_FULL, ff_separate_logs := True\<rparr>, Out_lf_fmt = fmt,
          getopt = getopt_initial\<lparr>optind := 2\<rparr>, written = []\<rparr>"
  "cl_parser ext [prog, ''--full-follow-fork='' @ v] (initial_state c fmt) =
     Returned 2
       \<lparr>clo = c\<lparr>ff_mode := E_FF_FULL, ff_separate_logs := True\<rparr>, Out_lf_fmt = fmt,
          getopt = getopt_initial\<lparr>optind := 2\<rparr>, written = []\<rparr>"
proof -
  show "cl_parser ext [prog, ''-f''] (initial_state c fmt) =
     Returned 2
       \<lparr>clo = c\<lparr>ff_mode := E_FF_FULL\<rparr>, Out_lf_fmt = fmt,
          getopt = getopt_initial\<lparr>optind := 2\<rparr>, written = []\<rparr>"
    using run_long_flag [OF in_long_options(4), of ext prog c fmt]
      scan_short_optional_bare [of getopt_initial "[prog, ''-f'']"]
      run_single [of "[prog, ''-f'']" "of_char CHR ''f''" "getopt_initial\<lparr>optind := 2\<rparr>" "[]", OF _ _ refl, of ext c fmt]
    by (simp add: handle_follow_fork getopt_initial_def)
  show "v \<noteq> [] \<Longrightarrow> cl_parser ext [prog, ''-f'' @ v] (initial_state c fmt) =
     Returned 2
       \<lparr>clo = c\<lparr>ff_mode := E_FF_FULL, ff_separate_logs := True\<rparr>, Out_lf_fmt = fmt,
          getopt = getopt_initial\<lparr>optind := 2\<rparr>, written = []\<rparr>"
    using run_short_attached [of "CHR ''f''" v ext prog c fmt]
    by (simp add: handle_follow_fork getopt_initial_def)
  show "cl_parser ext [prog, ''--full-follow-fork='' @ v] (initial_state c fmt) =
     Returned 2
       \<lparr>clo = c\<lparr>ff_mode := E_FF_FULL, ff_separate_logs := True\<rparr>, Out_lf_fmt = fmt,
          getopt = getopt_initial\<lparr>optind := 2\<rparr>, written = []\<rparr>"
    using run_long_attached [OF in_long_options(4), of ext prog v c fmt]
    by (simp add: handle_follow_fork getopt_initial_def)
qed

lemma cl_parser_loop_induct [case_names step]:
  assumes step: "\<And>s. (\<And>c d es s2.
                    getopt_long argv optstring long_options (getopt s) = (c, d, es) \<Longrightarrow>
                    c \<noteq> - 1 \<Longrightarrow>
                    handle_option ext c (emit es (s\<lparr>getopt := d\<rparr>)) = Continue s2 \<Longrightarrow> P s2)
                \<Longrightarrow> P s"
  shows "P s"
proof (induction s rule: measure_induct_rule [where f = "\<lambda>s. remaining argv (getopt s)"])
  case (less s)
  show ?case
  proof (rule step)
    fix c d es s2
    assume g: "getopt_long argv optstring long_options (getopt s) = (c, d, es)"
      and ne: "c \<noteq> - 1"
      and h: "handle_option ext c (emit es (s\<lparr>getopt := d\<rparr>)) = Continue s2"
    from handle_option_getopt [OF h] have "getopt s2 = d" by (simp add: emit_def)
    with getopt_long_progress [OF g ne] show "P s2" by (simp add: less)
  qed
qed

lemma handle_option_command:
  "handle_option ext c s = Continue s' \<Longrightarrow> command (clo s') = command (clo s)"
  by (auto simp: handle_option_def check_optarg_def upd_clo_def emit_def Let_def
           split: if_splits option.splits)

lemma loop_command:
  "cl_parser_loop ext argv s = Continue s' \<Longrightarrow> command (clo s') = command (clo s)"
proof (induction s rule: cl_parser_loop_induct [where argv = argv and ext = ext])
  case (step s)
  obtain c d es where g: "getopt_long argv optstring long_options (getopt s) = (c, d, es)"
    by (cases "getopt_long argv optstring long_options (getopt s)") auto
  show ?case
  proof (cases "c = - 1")
    case True
    with g loop_break [of argv s d es ext] step.prems show ?thesis
      by (auto simp: emit_def)
  next
    case False
    show ?thesis
    proof (cases "handle_option ext c (emit es (s\<lparr>getopt := d\<rparr>))")
      case (Exit status s2)
      from loop_exit [OF g False Exit] step.prems show ?thesis by simp
    next
      case (Continue s2)
      from loop_next [OF g False Continue] step.prems
      have "cl_parser_loop ext argv s2 = Continue s'" by simp
      from step.IH [OF g False Continue this] handle_option_command [OF Continue]
      show ?thesis by (simp add: emit_def)
    qed
  qed
qed

subsection \<open>The follow-fork option\<close>

text \<open>
  Claim C2, as the claim states it for the command line \<^verbatim>\<open>-f anything\<close>, fails: the
  option string gives \<^verbatim>\<open>f\<close> an optional argument (\<^verbatim>\<open>f::\<close>), and
  \<^verbatim>\<open>getopt_long\<close> takes an optional argument only from the same argv element. The
  next element is not the value of the option: \<^verbatim>\<open>ff_separate_logs\<close> stays clear and
  \<^verbatim>\<open>anything\<close> is the start of the trailing command.
\<close>

theorem follow_fork_detached_value_counterexample:
  "cl_parser sample_externals [''vltrace'', ''-f'', ''anything''] (initial_state zero_options 0) =
     Returned 2
       \<lparr>clo = zero_options\<lparr>ff_mode := E_FF_FULL, command := True\<rparr>, Out_lf_fmt = 0,
          getopt = getopt_initial\<lparr>optind := 2\<rparr>, written = []\<rparr>
   \<and> \<not> ff_separate_logs (zero_options\<lparr>ff_mode := E_FF_FULL, command := True\<rparr>)"
  using follow_fork_detached [of "''anything''" sample_externals "''vltrace''" zero_options 0]
  by (simp add: NONOPTION_P_def zero_options_def)

text \<open>
  Claim C2, amended. \<^verbatim>\<open>-f\<close> alone sets \<^verbatim>\<open>ff_mode\<close> to \<^verbatim>\<open>E_FF_FULL\<close> and leaves
  \<^verbatim>\<open>ff_separate_logs\<close> as it was. A value reaches the option when it is attached to
  it, as \<^verbatim>\<open>-fV\<close> with \<open>V\<close> not empty or as \<^verbatim>\<open>--full-follow-fork=V\<close>; then
  \<^verbatim>\<open>ff_separate_logs\<close> is set as well. In \<^verbatim>\<open>-f V\<close>, with \<open>V\<close> an element of its own
  that does not look like an option, \<^verbatim>\<open>ff_separate_logs\<close> is left as it was and \<open>V\<close> is
  the first element of the trailing command. In the dispatcher, \<^verbatim>\<open>ff_separate_logs\<close> is
  set exactly when \<^verbatim>\<open>optarg\<close> is not null.
\<close>

theorem follow_fork_option:
  "cl_parser ext [prog, ''-f''] (initial_state c fmt) =
     Returned 2
       \<lparr>clo = c\<lparr>ff_mode := E_FF_FULL\<rparr>, Out_lf_fmt = fmt,
          getopt = getopt_initial\<lparr>optind := 2\<rparr>, written = []\<rparr>
   \<and> (v \<noteq> [] \<longrightarrow>
        cl_parser ext [prog, ''-f'' @ v] (initial_state c fmt) =
          Returned 2
            \<lparr>clo = c\<lparr>ff_mode := E_FF_FULL, ff_separate_logs := True\<rparr>, Out_lf_fmt = fmt,
               getopt = getopt_initial\<lparr>optind := 2\<rparr>, written = []\<rparr>)
   \<and> cl_parser ext [prog, ''--full-follow-fork='' @ v] (initial_state c fmt) =
       Returned 2
         \<lparr>clo = c\<lparr>ff_mode := E_FF_FULL, ff_separate_logs := True\<rparr>, Out_lf_fmt = fmt,
            getopt = getopt_initial\<lparr>optind := 2\<rparr>, written = []\<rparr>
   \<and> (NONOPTION_P v \<longrightarrow>
        cl_parser ext [prog, ''-f'', v] (initial_state c fmt) =
          Returned 2
            \<lparr>clo = c\<lparr>ff_mode := E_FF_FULL, command := True\<rparr>, Out_lf_fmt = fmt,
               getopt = getopt_initial\<lparr>optind := 2\<rparr>, written = []\<rparr>)
   \<and> handle_option ext (of_char CHR ''f'') s =
       Continue (s\<lparr>clo := (clo s)\<lparr>ff_mode := E_FF_FULL,
                    ff_separate_logs :=
                      (if optarg (getopt s) = None then ff_separate_logs (clo s) else True)\<rparr>\<rparr>)"
  using handle_follow_fork [of "of_char CHR ''f''" ext s]
    follow_fork_runs(1) [where ext = ext and prog = prog and c = c and fmt = fmt]
    follow_fork_runs(2) [where ext = ext and prog = prog and c = c and fmt = fmt and v = v]
    follow_fork_runs(3) [where ext = ext and prog = prog and c = c and fmt = fmt and v = v]
    follow_fork_detached [where ext = ext and prog = prog and c = c and fmt = fmt and v = v]
  by simp

theorem follow_fork_option_witness:
  "''logs'' \<noteq> []
   \<and> cl_parser sample_externals [''vltrace'', ''-flogs''] (initial_state zero_options 0) =
       Returned 2
         \<lparr>clo = zero_options\<lparr>ff_mode := E_FF_FULL, ff_separate_logs := True\<rparr>, Out_lf_fmt = 0,
            getopt = getopt_initial\<lparr>optind := 2\<rparr>, written = []\<rparr>
   \<and> NONOPTION_P ''logs''
   \<and> cl_parser sample_externals [''vltrace'', ''-f'', ''logs''] (initial_state zero_options 0) =
       Returned 2
         \<lparr>clo = zero_options\<lparr>ff_mode := E_FF_FULL, command := True\<rparr>, Out_lf_fmt = 0,
            getopt = getopt_initial\<lparr>optind := 2\<rparr>, written = []\<rparr>"
  using follow_fork_option [of sample_externals "''vltrace''" zero_options 0 "''logs''"]
  by (simp add: NONOPTION_P_def)

subsection \<open>A required value that is missing\<close>

lemma missing_short_value:
  assumes "x \<in> set ''plseoNK''"
    and "nextchar (getopt s) = []" and "0 < optind (getopt s)"
    and "optind (getopt s) + 1 = length argv"
    and "argv ! optind (getopt s) = [CHR ''-'', x]"
  shows "cl_parser ext argv s =
           Exited EXIT_FAILURE
             (s\<lparr>getopt := (getopt s)\<lparr>optarg := None, optind := optind (getopt s) + 1,
                                     optopt := of_char x, nextchar := []\<rparr>,
                written := written s @ print_if (opterr (getopt s)) (Getopt_requires_argument x)
                             @ [Fprint_help Stderr]\<rparr>)"
  using cl_parser_step [OF scan_short_missing [OF assms] of_char_not_minus_one, of ext]
  by (simp add: handle_question_mark emit_def)

lemma missing_long_value:
  assumes "p \<in> set long_options" and "has_arg p = required_argument"
    and "nextchar (getopt s) = []" and "0 < optind (getopt s)"
    and "optind (getopt s) + 1 = length argv"
    and "argv ! optind (getopt s) = ''--'' @ name p"
  shows "cl_parser ext argv s =
           Exited EXIT_FAILURE
             (s\<lparr>getopt := (getopt s)\<lparr>optarg := None, optind := optind (getopt s) + 1,
                                     optopt := val p, nextchar := []\<rparr>,
                written := written s
                             @ print_if (opterr (getopt s)) (Getopt_long_requires_argument (name p))
                             @ [Fprint_help Stderr]\<rparr>)"
  using cl_parser_step [OF scan_long_missing [OF assms] of_char_not_minus_one, of ext]
  by (simp add: handle_question_mark emit_def)

lemma run_after_timestamp:
  assumes "argv = prog # ''-t'' # rest"
  shows "cl_parser ext argv (initial_state c fmt) =
           cl_parser ext argv
             \<lparr>clo = c\<lparr>timestamp := True\<rparr>, Out_lf_fmt = fmt,
                getopt = getopt_initial\<lparr>optind := 2\<rparr>, written = []\<rparr>"
proof -
  have g: "getopt_long argv optstring long_options (getopt (initial_state c fmt)) =
             (of_char CHR ''t'', getopt_initial\<lparr>optind := 2\<rparr>, [])"
    using scan_short_flag [of "CHR ''t''" getopt_initial argv] assms
    by (simp add: getopt_initial_def initial_state_def)
  show ?thesis
    using cl_parser_step [OF g of_char_not_minus_one, of ext]
    by (simp add: handle_timestamp emit_def initial_state_def)
qed

lemma run_example:
  "cl_parser ext [prog, ''-t'', ''-p'', ''100'', ''--'', ''ls'', ''-l''] (initial_state c fmt) =
     Returned 5
       \<lparr>clo = c\<lparr>timestamp := True, pid := 100, command := True\<rparr>, Out_lf_fmt = fmt,
          getopt = getopt_initial\<lparr>optind := 5\<rparr>, written = []\<rparr>"
proof -
  let ?argv = "[prog, ''-t'', ''-p'', ''100'', ''--'', ''ls'', ''-l'']"
  let ?s1 = "\<lparr>clo = c\<lparr>timestamp := True\<rparr>, Out_lf_fmt = fmt,
               getopt = getopt_initial\<lparr>optind := 2\<rparr>, written = []\<rparr>"
  let ?s2 = "\<lparr>clo = c\<lparr>timestamp := True, pid := 100\<rparr>, Out_lf_fmt = fmt,
               getopt = getopt_initial\<lparr>optarg := Some ''100'', optind := 4\<rparr>, written = []\<rparr>"
  have 1: "cl_parser ext ?argv (initial_state c fmt) = cl_parser ext ?argv ?s1"
    by (rule run_after_timestamp) simp
  have g: "getopt_long ?argv optstring long_options (getopt ?s1) =
             (of_char CHR ''p'', getopt_initial\<lparr>optarg := Some ''100'', optind := 4\<rparr>, [])"
    using scan_short_value [of "CHR ''p''" "getopt_initial\<lparr>optind := 2\<rparr>" ?argv]
    by (simp add: getopt_initial_def)
  have a: "atoi ''100'' = 100" by (simp add: atoi_defs)
  have h: "handle_option ext (of_char CHR ''p'')
             (emit [] (?s1\<lparr>getopt := getopt_initial\<lparr>optarg := Some ''100'', optind := 4\<rparr>\<rparr>)) =
           Continue ?s2"
    using handle_pid [of "emit [] (?s1\<lparr>getopt := getopt_initial\<lparr>optarg := Some ''100'', optind := 4\<rparr>\<rparr>)" "''100''" ext]
    by (simp add: emit_def a)
  have 2: "cl_parser ext ?argv ?s1 = cl_parser ext ?argv ?s2"
    using cl_parser_step [OF g of_char_not_minus_one, of ext] h by simp
  have 3: "cl_parser ext ?argv ?s2 =
             Returned 5
               \<lparr>clo = c\<lparr>timestamp := True, pid := 100, command := True\<rparr>, Out_lf_fmt = fmt,
                  getopt = getopt_initial\<lparr>optind := 5\<rparr>, written = []\<rparr>"
    using cl_parser_dashdash [of ?s2 ?argv ext] by (simp add: getopt_initial_def)
  from 1 2 3 show ?thesis by simp
qed

lemma run_example_options_after_command:
  "cl_parser ext [prog, ''-t'', ''ls'', ''-p'', ''0''] (initial_state c fmt) =
     Returned 2
       \<lparr>clo = c\<lparr>timestamp := True, command := True\<rparr>, Out_lf_fmt = fmt,
          getopt = getopt_initial\<lparr>optind := 2\<rparr>, written = []\<rparr>"
proof -
  let ?argv = "[prog, ''-t'', ''ls'', ''-p'', ''0'']"
  let ?s1 = "\<lparr>clo = c\<lparr>timestamp := True\<rparr>, Out_lf_fmt = fmt,
               getopt = getopt_initial\<lparr>optind := 2\<rparr>, written = []\<rparr>"
  have 1: "cl_parser ext ?argv (initial_state c fmt) = cl_parser ext ?argv ?s1"
    by (rule run_after_timestamp) simp
  have 2: "cl_parser ext ?argv ?s1 =
             Returned 2
               \<lparr>clo = c\<lparr>timestamp := True, command := True\<rparr>, Out_lf_fmt = fmt,
                  getopt = getopt_initial\<lparr>optind := 2\<rparr>, written = []\<rparr>"
    using cl_parser_nonoption [of ?s1 ?argv ext]
    by (simp add: getopt_initial_def NONOPTION_P_def)
  from 1 2 show ?thesis by simp
qed

subsection \<open>The scan never reads behind the index it returns\<close>

text \<open>
  A run of the parser that returns the index of an argv element depends on argv up to
  that element only: the elements behind it can be replaced by any others.
\<close>

lemma getopt_long_optind_ge:
  assumes "getopt_long argv os' lo d = (c, d', es)" and "argv \<noteq> []"
  shows "(if optind d = 0 then 1 else optind d) \<le> optind d'"
proof -
  define d1 where "d1 = (if optind d = 0 then d\<lparr>optind := 1, nextchar := []\<rparr> else d)\<lparr>optarg := None\<rparr>"
  have o: "optind d1 = (if optind d = 0 then 1 else optind d)" by (simp add: d1_def)
  from assms
  consider "d' = d1" | "d' = d1\<lparr>optind := optind d1 + 1\<rparr>"
    | x pe n where "process_long_option argv x lo pe (d1\<lparr>nextchar := n\<rparr>) = (c, d', es)"
    | x pe n where "process_short_option argv x pe (d1\<lparr>nextchar := n\<rparr>) = (c, d', es)"
    | x pe where "process_short_option argv x pe d1 = (c, d', es)"
    unfolding getopt_long_def Let_def d1_def [symmetric]
    by (auto split: if_splits)
  then have "optind d1 \<le> optind d'"
  proof cases
    case 3
    from long_progress [OF 3] show ?thesis by simp
  next
    case 4
    then show ?thesis
      by (auto simp: process_short_option_def Let_def split: list.splits if_splits)
  next
    case 5
    then show ?thesis
      by (auto simp: process_short_option_def Let_def split: list.splits if_splits)
  qed auto
  with o show ?thesis by simp
qed

lemma short_prefix_agree:
  assumes "process_short_option argv os' pe d = (c, d', es)"
    and "optind d' \<le> i" and "i < length argv" and "i < length argv'"
    and "\<forall>j\<le>i. argv' ! j = argv ! j"
  shows "process_short_option argv' os' pe d = (c, d', es)"
  using assms
  by (auto simp: process_short_option_def Let_def split: list.splits if_splits)

lemma long_prefix_agree:
  assumes "process_long_option argv os' lo pe d = (c, d', es)"
    and "optind d' \<le> i" and "i < length argv" and "i < length argv'"
    and "\<forall>j\<le>i. argv' ! j = argv ! j"
  shows "process_long_option argv' os' lo pe d = (c, d', es)"
  using assms
  by (auto simp: process_long_option_def Let_def split: lookup.splits if_splits)

lemma getopt_long_prefix_agree:
  assumes g: "getopt_long argv os' lo d = (c, d', es)"
    and le: "optind d' \<le> i" and lt: "i < length argv" "i < length argv'"
    and eq: "\<forall>j\<le>i. argv' ! j = argv ! j"
  shows "getopt_long argv' os' lo d = (c, d', es)"
proof -
  define d1 where "d1 = (if optind d = 0 then d\<lparr>optind := 1, nextchar := []\<rparr> else d)\<lparr>optarg := None\<rparr>"
  define os2 where "os2 = (if take 1 os' = ''-'' \<or> take 1 os' = ''+'' then tl os' else os')"
  define pe where "pe = (if take 1 os2 = '':'' then False else opterr d1)"
  have u: "getopt_long a os' lo d =
             (if nextchar d1 = [] then
                (if optind d1 < length a \<and> a ! optind d1 = ''--''
                 then (- 1, d1\<lparr>optind := optind d1 + 1\<rparr>, [])
                 else if length a \<le> optind d1 then (- 1, d1, [])
                 else if NONOPTION_P (a ! optind d1) then (- 1, d1, [])
                 else if take 1 (tl (a ! optind d1)) = ''-''
                 then process_long_option a os2 lo pe (d1\<lparr>nextchar := drop 2 (a ! optind d1)\<rparr>)
                 else process_short_option a os2 pe (d1\<lparr>nextchar := tl (a ! optind d1)\<rparr>))
              else process_short_option a os2 pe d1)" if "a \<noteq> []" for a
    using that by (simp add: getopt_long_def Let_def d1_def os2_def pe_def)
  from lt have ne: "argv \<noteq> []" "argv' \<noteq> []" by auto
  show ?thesis
  proof (cases "nextchar d1 = []")
    case False
    with g u [OF ne(1)] have "process_short_option argv os2 pe d1 = (c, d', es)" by simp
    from short_prefix_agree [OF this le lt eq] u [OF ne(2)] False show ?thesis by simp
  next
    case True
    from getopt_long_optind_ge [OF g ne(1)] le have k: "optind d1 \<le> i"
      by (auto simp: d1_def split: if_splits)
    with eq lt have a: "argv' ! optind d1 = argv ! optind d1"
      and l: "optind d1 < length argv" "optind d1 < length argv'" by auto
    show ?thesis
    proof (cases "argv ! optind d1 = ''--'' \<or> NONOPTION_P (argv ! optind d1)")
      case stop: True
      with g True l a u [OF ne(1)] u [OF ne(2)] show ?thesis by auto
    next
      case opt: False
      show ?thesis
      proof (cases "take 1 (tl (argv ! optind d1)) = ''-''")
        case lg: True
        with g True l opt u [OF ne(1)]
        have "process_long_option argv os2 lo pe (d1\<lparr>nextchar := drop 2 (argv ! optind d1)\<rparr>)
                = (c, d', es)" by simp
        from long_prefix_agree [OF this le lt eq] True l a opt lg u [OF ne(2)]
        show ?thesis by simp
      next
        case lg: False
        with g True l opt u [OF ne(1)]
        have "process_short_option argv os2 pe (d1\<lparr>nextchar := tl (argv ! optind d1)\<rparr>)
                = (c, d', es)" by simp
        from short_prefix_agree [OF this le lt eq] True l a opt lg u [OF ne(2)]
        show ?thesis by simp
      qed
    qed
  qed
qed

lemma loop_optind_le:
  "cl_parser_loop ext argv s = Continue s' \<Longrightarrow> optind (getopt s) \<le> optind (getopt s')"
proof (induction s rule: cl_parser_loop_induct [where argv = argv and ext = ext])
  case (step s)
  obtain c d es where g: "getopt_long argv optstring long_options (getopt s) = (c, d, es)"
    by (cases "getopt_long argv optstring long_options (getopt s)") auto
  have m: "optind (getopt s) \<le> optind d"
  proof (cases "argv = []")
    case True
    with g show ?thesis by (simp add: getopt_long_def)
  next
    case False
    from getopt_long_optind_ge [OF g False] show ?thesis by (auto split: if_splits)
  qed
  show ?case
  proof (cases "c = - 1")
    case True
    with g loop_break [of argv s d es ext] step.prems m show ?thesis
      by (auto simp: emit_def)
  next
    case False
    show ?thesis
    proof (cases "handle_option ext c (emit es (s\<lparr>getopt := d\<rparr>))")
      case (Exit status s2)
      from loop_exit [OF g False Exit] step.prems show ?thesis by simp
    next
      case (Continue s2)
      from handle_option_getopt [OF Continue] have d: "getopt s2 = d" by (simp add: emit_def)
      from loop_next [OF g False Continue] step.prems
      have "cl_parser_loop ext argv s2 = Continue s'" by simp
      from step.IH [OF g False Continue this] d m show ?thesis by simp
    qed
  qed
qed

lemma loop_prefix_agree:
  assumes lt: "i < length argv" "i < length argv'"
    and eq: "\<forall>j\<le>i. argv' ! j = argv ! j"
  shows "cl_parser_loop ext argv s = Continue s' \<Longrightarrow> optind (getopt s') \<le> i \<Longrightarrow>
         cl_parser_loop ext argv' s = Continue s'"
proof (induction s rule: cl_parser_loop_induct [where argv = argv and ext = ext])
  case (step s)
  obtain c d es where g: "getopt_long argv optstring long_options (getopt s) = (c, d, es)"
    by (cases "getopt_long argv optstring long_options (getopt s)") auto
  show ?case
  proof (cases "c = - 1")
    case True
    with g loop_break [of argv s d es ext] step.prems
    have s': "s' = emit es (s\<lparr>getopt := d\<rparr>)" by simp
    with step.prems(2) have "optind d \<le> i" by (simp add: emit_def)
    from getopt_long_prefix_agree [OF g this lt eq] True s'
      loop_break [of argv' s d es ext]
    show ?thesis by simp
  next
    case False
    show ?thesis
    proof (cases "handle_option ext c (emit es (s\<lparr>getopt := d\<rparr>))")
      case (Exit status s2)
      from loop_exit [OF g False Exit] step.prems show ?thesis by simp
    next
      case (Continue s2)
      from handle_option_getopt [OF Continue] have d: "getopt s2 = d" by (simp add: emit_def)
      from loop_next [OF g False Continue] step.prems
      have l: "cl_parser_loop ext argv s2 = Continue s'" by simp
      from loop_optind_le [OF l] d step.prems(2) have "optind d \<le> i" by simp
      from getopt_long_prefix_agree [OF g this lt eq]
      have g': "getopt_long argv' optstring long_options (getopt s) = (c, d, es)" .
      from step.IH [OF g False Continue l step.prems(2)] loop_next [OF g' False Continue]
      show ?thesis by simp
    qed
  qed
qed

lemma cl_parser_tail_irrelevant:
  assumes r: "cl_parser ext argv s = Returned i s'" and lt: "i < length argv"
    and eq: "take (Suc i) argv' = take (Suc i) argv"
  shows "cl_parser ext argv' s = Returned i s'"
proof -
  from eq lt have "length (take (Suc i) argv') = Suc i" by simp
  then have lt': "i < length argv'" by simp
  have e: "\<forall>j\<le>i. argv' ! j = argv ! j"
  proof (intro allI impI)
    fix j assume "j \<le> i"
    then have "take (Suc i) argv' ! j = argv' ! j" "take (Suc i) argv ! j = argv ! j" by simp_all
    with eq show "argv' ! j = argv ! j" by simp
  qed
  from r obtain s1 where l: "cl_parser_loop ext argv s = Continue s1"
    and i: "i = optind (getopt s1)"
    by (auto simp: cl_parser_def split: step.splits)
  from loop_prefix_agree [OF lt lt' e l] i
  have "cl_parser_loop ext argv' s = Continue s1" by simp
  with r l lt lt' i show ?thesis by (simp add: cl_parser_def)
qed


subsection \<open>The end of the options\<close>

text \<open>
  Claim C6. For the arguments \<^verbatim>\<open>-t -p 100 -- ls -l\<close> the parser sets
  \<^verbatim>\<open>timestamp\<close>, stores 100 in \<^verbatim>\<open>pid\<close>, sets \<^verbatim>\<open>command\<close> and returns 5, the
  index of \<^verbatim>\<open>ls\<close> in argv. In general, when the scan stands at an argv element that
  does not look like an option (it does not start with \<^verbatim>\<open>-\<close>, or it is \<^verbatim>\<open>-\<close>
  alone), the parser returns the index of that element at once, with \<^verbatim>\<open>command\<close> set
  and nothing else changed, whatever follows the element: in
  \<^verbatim>\<open>-t ls -p 0\<close> the \<^verbatim>\<open>-p 0\<close> behind the command is not read, and the index
  returned is that of \<^verbatim>\<open>ls\<close>. And whenever the parser returns the index of an argv
  element, it returns the same index and the same state for every argv that is the same
  up to that element.
\<close>

theorem scanning_stops_at_command:
  "cl_parser ext [prog, ''-t'', ''-p'', ''100'', ''--'', ''ls'', ''-l''] (initial_state c fmt) =
     Returned 5
       \<lparr>clo = c\<lparr>timestamp := True, pid := 100, command := True\<rparr>, Out_lf_fmt = fmt,
          getopt = getopt_initial\<lparr>optind := 5\<rparr>, written = []\<rparr>
   \<and> [prog, ''-t'', ''-p'', ''100'', ''--'', ''ls'', ''-l''] ! 5 = ''ls''
   \<and> (nextchar (getopt s) = [] \<and> 0 < optind (getopt s) \<and> optind (getopt s) < length argv
        \<and> NONOPTION_P (argv ! optind (getopt s)) \<longrightarrow>
      cl_parser ext argv s =
        Returned (optind (getopt s))
          (s\<lparr>getopt := (getopt s)\<lparr>optarg := None\<rparr>, clo := (clo s)\<lparr>command := True\<rparr>\<rparr>))
   \<and> cl_parser ext [prog, ''-t'', ''ls'', ''-p'', ''0''] (initial_state c fmt) =
       Returned 2
         \<lparr>clo = c\<lparr>timestamp := True, command := True\<rparr>, Out_lf_fmt = fmt,
            getopt = getopt_initial\<lparr>optind := 2\<rparr>, written = []\<rparr>
   \<and> (cl_parser ext argv s = Returned i s' \<and> i < length argv
        \<and> take (Suc i) argv' = take (Suc i) argv \<longrightarrow>
      cl_parser ext argv' s = Returned i s')"
  using cl_parser_nonoption [of s argv ext] cl_parser_tail_irrelevant [of ext argv s i s' argv']
  by (simp add: run_example run_example_options_after_command)

theorem scanning_stops_at_command_witness:
  "nextchar (getopt (initial_state zero_options 0)) = []
   \<and> 0 < optind (getopt (initial_state zero_options 0))
   \<and> optind (getopt (initial_state zero_options 0)) < length [''vltrace'', ''ls'', ''-l'']
   \<and> NONOPTION_P ([''vltrace'', ''ls'', ''-l''] ! optind (getopt (initial_state zero_options 0)))
   \<and> cl_parser sample_externals [''vltrace'', ''ls'', ''-l''] (initial_state zero_options 0) =
       Returned 1
         \<lparr>clo = zero_options\<lparr>command := True\<rparr>, Out_lf_fmt = 0,
            getopt = getopt_initial, written = []\<rparr>
   \<and> 1 < length [''vltrace'', ''ls'', ''-l'']
   \<and> take (Suc 1) [''vltrace'', ''ls'', ''-p'', ''0''] = take (Suc 1) [''vltrace'', ''ls'', ''-l'']
   \<and> cl_parser sample_externals [''vltrace'', ''ls'', ''-p'', ''0''] (initial_state zero_options 0) =
       Returned 1
         \<lparr>clo = zero_options\<lparr>command := True\<rparr>, Out_lf_fmt = 0,
            getopt = getopt_initial, written = []\<rparr>"
proof -
  note t = scanning_stops_at_command [of sample_externals "''vltrace''" zero_options 0
          "initial_state zero_options 0" "[''vltrace'', ''ls'', ''-l'']" 1
          "\<lparr>clo = zero_options\<lparr>command := True\<rparr>, Out_lf_fmt = 0,
             getopt = getopt_initial, written = []\<rparr>"
          "[''vltrace'', ''ls'', ''-p'', ''0'']"]
  have r: "cl_parser sample_externals [''vltrace'', ''ls'', ''-l''] (initial_state zero_options 0) =
       Returned 1
         \<lparr>clo = zero_options\<lparr>command := True\<rparr>, Out_lf_fmt = 0,
            getopt = getopt_initial, written = []\<rparr>"
    using t by (simp add: initial_state_def getopt_initial_def NONOPTION_P_def)
  with t show ?thesis
    by (simp add: initial_state_def getopt_initial_def NONOPTION_P_def)
qed

subsection \<open>The trailing command\<close>

lemma cl_parser_command:
  assumes "cl_parser ext argv s = Returned i s'"
  shows "i = optind (getopt s')"
    and "command (clo s') \<longleftrightarrow> command (clo s) \<or> i < length argv"
proof -
  from assms obtain s1 where l: "cl_parser_loop ext argv s = Continue s1"
    and i: "i = optind (getopt s1)"
    and s': "s' = (if optind (getopt s1) < length argv
                   then upd_clo (\<lambda>r. r\<lparr>command := True\<rparr>) s1 else s1)"
    by (auto simp: cl_parser_def split: step.splits)
  from i s' show "i = optind (getopt s')" by (simp add: upd_clo_def)
  from loop_command [OF l] i s'
  show "command (clo s') \<longleftrightarrow> command (clo s) \<or> i < length argv"
    by (simp add: upd_clo_def)
qed

text \<open>
  Claim C7. When the parser returns, the value returned is the final \<^verbatim>\<open>optind\<close>, and
  \<^verbatim>\<open>command\<close> is set in the result exactly when it was set before or that index is
  below the argument count. So for a call with \<^verbatim>\<open>command\<close> clear, as the options
  structure is before any parsing, \<^verbatim>\<open>command\<close> is set in the result exactly when
  argv elements remain.
\<close>

theorem command_iff_tokens_remain:
  assumes "cl_parser ext argv s = Returned i s'"
  shows "i = optind (getopt s')
         \<and> (command (clo s') \<longleftrightarrow> command (clo s) \<or> i < length argv)
         \<and> (\<not> command (clo s) \<longrightarrow> (command (clo s') \<longleftrightarrow> i < length argv))"
  using cl_parser_command [OF assms] by simp

theorem command_iff_tokens_remain_witness:
  "cl_parser sample_externals [''vltrace'', ''-t'', ''ls'', ''-p'', ''0''] (initial_state zero_options 0) =
     Returned 2
       \<lparr>clo = zero_options\<lparr>timestamp := True, command := True\<rparr>, Out_lf_fmt = 0,
          getopt = getopt_initial\<lparr>optind := 2\<rparr>, written = []\<rparr>
   \<and> \<not> command (clo (initial_state zero_options 0))
   \<and> (command (clo \<lparr>clo = zero_options\<lparr>timestamp := True, command := True\<rparr>, Out_lf_fmt = 0,
                       getopt = getopt_initial\<lparr>optind := 2\<rparr>, written = []\<rparr>)
        \<longleftrightarrow> 2 < length [''vltrace'', ''-t'', ''ls'', ''-p'', ''0''])
   \<and> 2 = optind (getopt \<lparr>clo = zero_options\<lparr>timestamp := True, command := True\<rparr>, Out_lf_fmt = 0,
                           getopt = getopt_initial\<lparr>optind := 2\<rparr>, written = []\<rparr>)"
proof -
  have r: "cl_parser sample_externals [''vltrace'', ''-t'', ''ls'', ''-p'', ''0'']
             (initial_state zero_options 0) =
           Returned 2
             \<lparr>clo = zero_options\<lparr>timestamp := True, command := True\<rparr>, Out_lf_fmt = 0,
                getopt = getopt_initial\<lparr>optind := 2\<rparr>, written = []\<rparr>"
    by (rule run_example_options_after_command)
  have n: "\<not> command (clo (initial_state zero_options 0))"
    by (simp add: initial_state_def zero_options_def)
  from command_iff_tokens_remain [OF r] r n show ?thesis by simp
qed

lemma of_char_in_value_options: "of_char x \<in> value_options \<longleftrightarrow> x \<in> set ''plseoNK''"
  unfolding value_options_def by (rule inj_image_mem_iff) (rule inj_of_char)

lemma short_result:
  assumes "process_short_option argv os pe d = (c, d', es)"
  shows "c \<noteq> of_char CHR '':'' \<and> (c \<in> value_options \<longrightarrow> optarg d' \<noteq> None)"
proof (cases "nextchar d")
  case Nil
  with assms have "c = - 1" by (simp add: process_short_option_def)
  then show ?thesis by (auto simp: value_options_def)
next
  case (Cons x rest)
  consider (flag) "x \<in> set ''tXhdLRBr''"
    | (val) "x \<in> set ''plseoNK''"
    | (opt) "x = CHR ''f''"
    | (other) "x \<notin> set ''tXhdLRBrplseoNKf''"
    by auto
  then show ?thesis
  proof cases
    case flag
    from short_flag [OF Cons flag, of argv pe] assms have "c = of_char x" by simp
    with flag show ?thesis by (auto simp: of_char_in_value_options)
  next
    case val
    then have mem: "x \<in> set ''plseoNKf''" by auto
    show ?thesis
    proof (cases "rest = []")
      case False
      from short_attached [OF Cons False mem, of argv pe] assms
      have "c = of_char x" and "optarg d' \<noteq> None" by auto
      with val show ?thesis by auto
    next
      case True
      show ?thesis
      proof (cases "optind d + 1 < length argv")
        case lt: True
        from short_next [OF _ lt val, of pe] Cons True assms
        have "c = of_char x" and "optarg d' \<noteq> None" by auto
        with val show ?thesis by auto
      next
        case False
        then have "length argv \<le> optind d + 1" by simp
        from short_missing [OF _ this val, of pe] Cons True assms
        have "c = of_char CHR ''?''" by auto
        then show ?thesis by (auto simp: value_options_def)
      qed
    qed
  next
    case opt
    have "c = of_char CHR ''f''"
    proof (cases "rest = []")
      case True
      with short_optional_bare [of d argv pe] Cons opt assms show ?thesis by simp
    next
      case False
      from short_attached [OF Cons False, of argv pe] opt assms show ?thesis by simp
    qed
    then show ?thesis by (auto simp: value_options_def)
  next
    case other
    from short_invalid [OF Cons other, of argv pe] assms have "c = of_char CHR ''?''" by simp
    then show ?thesis by (auto simp: value_options_def)
  qed
qed

lemma find_long_option_member:
  assumes "find_long_option lo nm = Found p"
  shows "p \<in> set lo"
proof -
  have a: "q \<in> set lo" if "filter P lo = q # qs" for P q qs
  proof -
    have "q \<in> set (filter P lo)" using that by simp
    then show ?thesis by simp
  qed
  from assms show ?thesis
    by (auto simp: find_long_option_def split: list.splits if_splits dest: a)
qed

lemma long_option_kinds:
  assumes "p \<in> set long_options"
  shows "val p \<noteq> of_char CHR '':''"
    and "val p \<in> value_options \<longleftrightarrow> has_arg p = required_argument"
  using assms unfolding long_options_def value_options_def by auto

lemma long_result:
  assumes "process_long_option argv os long_options pe d = (c, d', es)"
  shows "c \<noteq> of_char CHR '':'' \<and> (c \<in> value_options \<longrightarrow> optarg d' \<noteq> None)"
proof (cases "find_long_option long_options (takeWhile (\<lambda>c. c \<noteq> CHR ''='') (nextchar d))")
  case (Found p)
  from find_long_option_member [OF Found] have p: "p \<in> set long_options" .
  have q: "(of_char CHR ''?'' :: int) \<notin> value_options" by (simp add: value_options_def)
  from assms Found long_option_kinds [OF p] q show ?thesis
    by (auto simp: process_long_option_def Let_def os_def optstring_def split: if_splits)
next
  case Ambiguous
  with assms have "c = of_char CHR ''?''" by (simp add: process_long_option_def Let_def)
  then show ?thesis by (auto simp: value_options_def)
next
  case Not_found
  with assms have "c = of_char CHR ''?''" by (simp add: process_long_option_def Let_def)
  then show ?thesis by (auto simp: value_options_def)
qed

lemma getopt_long_cases:
  assumes "getopt_long argv optstring long_options d = (c, d', es)"
  obtains (ended) "c = - 1" and "es = []"
    | (long) pe d1 where "process_long_option argv os long_options pe d1 = (c, d', es)"
    | (short) pe d1 where "process_short_option argv os pe d1 = (c, d', es)"
  using assms
  by (auto simp: getopt_long_def Let_def os_def optstring_def split: if_splits)

lemma getopt_long_result:
  assumes "getopt_long argv optstring long_options d = (c, d', es)"
  shows "c \<noteq> of_char CHR '':'' \<and> (c \<in> value_options \<longrightarrow> optarg d' \<noteq> None)"
  using assms
proof (cases rule: getopt_long_cases)
  case ended
  then show ?thesis by (auto simp: value_options_def)
next
  case (long pe d1)
  then show ?thesis by (rule long_result)
next
  case (short pe d1)
  then show ?thesis by (rule short_result)
qed

lemma short_diag:
  "process_short_option argv os' pe d = (c, d', es) \<Longrightarrow> ERROR_missing_argument \<notin> set es"
  by (auto simp: process_short_option_def Let_def print_if_def split: list.splits if_splits)

lemma long_diag:
  "process_long_option argv os' lo pe d = (c, d', es) \<Longrightarrow> ERROR_missing_argument \<notin> set es"
  by (auto simp: process_long_option_def Let_def print_if_def split: lookup.splits if_splits)

lemma getopt_long_diag:
  assumes "getopt_long argv optstring long_options d = (c, d', es)"
  shows "ERROR_missing_argument \<notin> set es"
  using assms
proof (cases rule: getopt_long_cases)
  case ended
  then show ?thesis by simp
next
  case (long pe d1)
  then show ?thesis by (rule long_diag)
next
  case (short pe d1)
  then show ?thesis by (rule short_diag)
qed

lemma handle_option_no_missing_argument:
  assumes "c \<noteq> of_char CHR '':''"
    and "c \<in> value_options \<longrightarrow> optarg (getopt s) \<noteq> None"
    and "ERROR_missing_argument \<notin> set (written s)"
  shows "ERROR_missing_argument \<notin> set (written (step_state (handle_option ext c s)))"
proof (cases "c \<in> value_options")
  case True
  with assms(2) obtain v where v: "optarg (getopt s) = Some v" by auto
  from v assms(1,3) show ?thesis
    by (simp add: handle_option_def check_optarg_def upd_clo_def emit_def Let_def step_state_def)
next
  case False
  then have "c \<noteq> of_char CHR ''p''" "c \<noteq> of_char CHR ''l''" "c \<noteq> of_char CHR ''s''"
    "c \<noteq> of_char CHR ''e''" "c \<noteq> of_char CHR ''o''" "c \<noteq> of_char CHR ''N''"
    "c \<noteq> of_char CHR ''K''"
    by (auto simp: value_options_def)
  with assms(1,3) show ?thesis
    by (simp add: handle_option_def upd_clo_def emit_def Let_def step_state_def
             split: option.splits)
qed

lemma loop_no_missing_argument:
  assumes "ERROR_missing_argument \<notin> set (written s)"
  shows "ERROR_missing_argument \<notin> set (written (step_state (cl_parser_loop ext argv s)))"
  using assms
proof (induction s rule: cl_parser_loop_induct [where argv = argv and ext = ext])
  case (step s)
  obtain c d es where g: "getopt_long argv optstring long_options (getopt s) = (c, d, es)"
    by (cases "getopt_long argv optstring long_options (getopt s)") auto
  let ?s1 = "emit es (s\<lparr>getopt := d\<rparr>)"
  from getopt_long_diag [OF g] step.prems
  have w: "ERROR_missing_argument \<notin> set (written ?s1)" by (simp add: emit_def)
  from getopt_long_result [OF g]
  have r: "c \<noteq> of_char CHR '':''" "c \<in> value_options \<longrightarrow> optarg (getopt ?s1) \<noteq> None"
    by (simp_all add: emit_def)
  note h = handle_option_no_missing_argument [OF r w, of ext]
  show ?case
  proof (cases "c = - 1")
    case True
    with g loop_break [of argv s d es ext] w show ?thesis by (simp add: step_state_def)
  next
    case False
    show ?thesis
    proof (cases "handle_option ext c ?s1")
      case (Exit status s2)
      from loop_exit [OF g False Exit] h Exit show ?thesis by (simp add: step_state_def)
    next
      case (Continue s2)
      with h have "ERROR_missing_argument \<notin> set (written s2)" by (simp add: step_state_def)
      from step.IH [OF g False Continue this] loop_next [OF g False Continue]
      show ?thesis by simp
    qed
  qed
qed

lemma cl_parser_no_missing_argument:
  assumes "ERROR_missing_argument \<notin> set (written s)"
  shows "ERROR_missing_argument \<notin> set (written (final_state (cl_parser ext argv s)))"
  using loop_no_missing_argument [OF assms, of ext argv]
  by (simp add: cl_parser_def final_state_def step_state_def upd_clo_def split: step.splits)

subsection \<open>The branches for a null option argument\<close>

text \<open>
  Claim C10. Whatever argv and the scanner state are, \<^verbatim>\<open>getopt_long\<close> called with the
  parser's option string and table never returns \<^verbatim>\<open>:\<close>, and when it returns one of
  the options that require a value (\<^verbatim>\<open>p l s e o N K\<close>), \<^verbatim>\<open>optarg\<close> is not null: a
  missing value is reported as \<^verbatim>\<open>?\<close> instead. So neither the failing branch of
  \<^verbatim>\<open>check_optarg\<close> nor \<^verbatim>\<open>case ':'\<close> is ever taken: a run of the parser never
  writes their message \<^verbatim>\<open>missing mandatory option's argument\<close>.
\<close>

theorem null_optarg_branches_unreachable:
  "(getopt_long argv optstring long_options d = (c, d', es) \<longrightarrow>
      c \<noteq> of_char CHR '':'' \<and> (c \<in> of_char ` set ''plseoNK'' \<longrightarrow> optarg d' \<noteq> None))
   \<and> (x \<in> set ''plseoNK'' \<and> nextchar d = [] \<and> 0 < optind d \<and> optind d + 1 = length argv
        \<and> argv ! optind d = [CHR ''-'', x] \<longrightarrow>
      fst (getopt_long argv optstring long_options d) = of_char CHR ''?'')
   \<and> (ERROR_missing_argument \<notin> set (written s) \<longrightarrow>
      ERROR_missing_argument \<notin> set (written (final_state (cl_parser ext argv s))))"
  using getopt_long_result [of argv d c d' es] scan_short_missing [of x d argv]
    cl_parser_no_missing_argument [of s ext argv]
  by (simp add: value_options_def)

theorem null_optarg_branches_unreachable_witness:
  "getopt_long [''vltrace'', ''-p'', ''7''] optstring long_options getopt_initial =
     (of_char CHR ''p'', getopt_initial\<lparr>optarg := Some ''7'', optind := 3\<rparr>, [])
   \<and> (of_char CHR ''p'' :: int) \<noteq> of_char CHR '':''
   \<and> (of_char CHR ''p'' :: int) \<in> of_char ` set ''plseoNK''
   \<and> optarg (getopt_initial\<lparr>optarg := Some ''7'', optind := 3\<rparr>) \<noteq> None
   \<and> CHR ''p'' \<in> set ''plseoNK'' \<and> nextchar getopt_initial = [] \<and> 0 < optind getopt_initial
   \<and> optind getopt_initial + 1 = length [''vltrace'', ''-p'']
   \<and> [''vltrace'', ''-p''] ! optind getopt_initial = [CHR ''-'', CHR ''p'']
   \<and> fst (getopt_long [''vltrace'', ''-p''] optstring long_options getopt_initial) = of_char CHR ''?''
   \<and> ERROR_missing_argument \<notin> set (written (initial_state zero_options 0))
   \<and> ERROR_missing_argument \<notin>
       set (written (final_state (cl_parser sample_externals [''vltrace'', ''-p'']
                                     (initial_state zero_options 0))))"
proof -
  have g: "getopt_long [''vltrace'', ''-p'', ''7''] optstring long_options getopt_initial =
     (of_char CHR ''p'', getopt_initial\<lparr>optarg := Some ''7'', optind := 3\<rparr>, [])"
    using scan_short_value [of "CHR ''p''" getopt_initial "[''vltrace'', ''-p'', ''7'']"]
    by (simp add: getopt_initial_def)
  show ?thesis
    using null_optarg_branches_unreachable [of "[''vltrace'', ''-p'', ''7'']" getopt_initial
            "of_char CHR ''p''" "getopt_initial\<lparr>optarg := Some ''7'', optind := 3\<rparr>" "[]"
            "CHR ''p''" "initial_state zero_options 0" sample_externals]
      null_optarg_branches_unreachable [of "[''vltrace'', ''-p'']" getopt_initial
            "of_char CHR ''p''" "getopt_initial\<lparr>optarg := Some ''7'', optind := 3\<rparr>" "[]"
            "CHR ''p''" "initial_state zero_options 0" sample_externals]
      g
    by (simp add: getopt_initial_def initial_state_def)
qed


subsection \<open>The scan reads argv from \<^verbatim>\<open>optind\<close> on\<close>

text \<open>
  Two argument vectors of the same length that agree from \<^verbatim>\<open>optind\<close> on give the
  same scan and the same run of the parser.
\<close>

lemma short_agree:
  assumes "length argv = length argv'" and "\<forall>j\<ge>optind d. argv ! j = argv' ! j"
  shows "process_short_option argv os' pe d = process_short_option argv' os' pe d"
proof -
  from assms(2) have "argv ! Suc (optind d) = argv' ! Suc (optind d)" by simp
  with assms(1) show ?thesis
    by (simp add: process_short_option_def Let_def split: list.splits)
qed

lemma long_agree:
  assumes "length argv = length argv'" and "\<forall>j\<ge>optind d. argv ! j = argv' ! j"
  shows "process_long_option argv os' lo pe d = process_long_option argv' os' lo pe d"
proof -
  from assms(2) have "argv ! Suc (optind d) = argv' ! Suc (optind d)" by simp
  with assms(1) show ?thesis
    by (simp add: process_long_option_def Let_def split: lookup.splits)
qed

lemma getopt_long_agree:
  assumes "length argv = length argv'" and "\<forall>j\<ge>optind d. argv ! j = argv' ! j"
  shows "getopt_long argv os' lo d = getopt_long argv' os' lo d"
proof -
  define d1 where "d1 = (if optind d = 0 then d\<lparr>optind := 1, nextchar := []\<rparr> else d)\<lparr>optarg := None\<rparr>"
  have le: "optind d \<le> optind d1" by (simp add: d1_def)
  with assms(2) have a: "\<forall>j\<ge>optind d1. argv ! j = argv' ! j" by auto
  then have e: "argv ! optind d1 = argv' ! optind d1" by simp
  have s: "process_short_option argv x pe (d1\<lparr>nextchar := n\<rparr>) =
           process_short_option argv' x pe (d1\<lparr>nextchar := n\<rparr>)" for x pe n
    using a by (intro short_agree [OF assms(1)]) simp
  have s': "process_short_option argv x pe d1 = process_short_option argv' x pe d1" for x pe
    using a by (intro short_agree [OF assms(1)]) simp
  have l: "process_long_option argv x lo pe (d1\<lparr>nextchar := n\<rparr>) =
           process_long_option argv' x lo pe (d1\<lparr>nextchar := n\<rparr>)" for x pe n
    using a by (intro long_agree [OF assms(1)]) simp
  show ?thesis
    unfolding getopt_long_def Let_def d1_def [symmetric]
    using assms(1) e by (simp add: s s' l)
qed

lemma getopt_long_optind_mono:
  assumes "getopt_long argv os' lo d = (c, d', es)" and "c \<noteq> - 1"
  shows "optind d \<le> optind d'"
proof -
  define d1 where "d1 = (if optind d = 0 then d\<lparr>optind := 1, nextchar := []\<rparr> else d)\<lparr>optarg := None\<rparr>"
  have le: "optind d \<le> optind d1" by (simp add: d1_def)
  from assms
  consider x pe n where "process_long_option argv x lo pe (d1\<lparr>nextchar := n\<rparr>) = (c, d', es)"
    | x pe n where "n \<noteq> []" "process_short_option argv x pe (d1\<lparr>nextchar := n\<rparr>) = (c, d', es)"
    | x pe where "nextchar d1 \<noteq> []" "process_short_option argv x pe d1 = (c, d', es)"
    unfolding getopt_long_def Let_def d1_def [symmetric]
    by (auto simp: NONOPTION_P_def split: if_splits list.splits)
  then have "optind d1 \<le> optind d'"
  proof cases
    case 1
    from long_progress [OF 1] show ?thesis by simp
  next
    case 2
    from short_progress [OF 2(2)] 2(1) show ?thesis by auto
  next
    case 3
    from short_progress [OF 3(2) 3(1)] show ?thesis by auto
  qed
  with le show ?thesis by simp
qed

lemma loop_agree:
  assumes "length argv = length argv'"
    and "\<forall>j\<ge>optind (getopt s). argv ! j = argv' ! j"
  shows "cl_parser_loop ext argv s = cl_parser_loop ext argv' s"
  using assms(2)
proof (induction s rule: cl_parser_loop_induct [where argv = argv and ext = ext])
  case (step s)
  obtain c d es where g: "getopt_long argv optstring long_options (getopt s) = (c, d, es)"
    by (cases "getopt_long argv optstring long_options (getopt s)") auto
  with getopt_long_agree [OF assms(1) step.prems]
  have g': "getopt_long argv' optstring long_options (getopt s) = (c, d, es)" by simp
  show ?case
  proof (cases "c = - 1")
    case True
    with g g' loop_break [of argv s d es ext] loop_break [of argv' s d es ext]
    show ?thesis by simp
  next
    case False
    show ?thesis
    proof (cases "handle_option ext c (emit es (s\<lparr>getopt := d\<rparr>))")
      case (Exit status s2)
      from loop_exit [OF g False Exit] loop_exit [OF g' False Exit] show ?thesis by simp
    next
      case (Continue s2)
      from handle_option_getopt [OF Continue] have "getopt s2 = d" by (simp add: emit_def)
      with getopt_long_optind_mono [OF g False] step.prems
      have "\<forall>j\<ge>optind (getopt s2). argv ! j = argv' ! j" by auto
      from step.IH [OF g False Continue this]
        loop_next [OF g False Continue] loop_next [OF g' False Continue]
      show ?thesis by simp
    qed
  qed
qed

lemma cl_parser_agree:
  assumes "length argv = length argv'"
    and "\<forall>j\<ge>optind (getopt s). argv ! j = argv' ! j"
  shows "cl_parser ext argv s = cl_parser ext argv' s"
  using loop_agree [OF assms, of ext] assms(1) by (simp add: cl_parser_def cong: step.case_cong)

lemma same_step_same_outcome:
  assumes g: "getopt_long argv optstring long_options (getopt s) = (c, d, es)"
    and g': "getopt_long argv' optstring long_options (getopt s) = (c, d, es)"
    and ne: "c \<noteq> - 1"
    and len: "length argv = length argv'"
    and rest: "\<forall>j\<ge>optind d. argv ! j = argv' ! j"
  shows "cl_parser ext argv s = cl_parser ext argv' s"
proof (cases "handle_option ext c (emit es (s\<lparr>getopt := d\<rparr>))")
  case (Exit status s2)
  with cl_parser_step [OF g ne, of ext] cl_parser_step [OF g' ne, of ext] show ?thesis by simp
next
  case (Continue s2)
  from handle_option_getopt [OF Continue] have "getopt s2 = d" by (simp add: emit_def)
  with rest have "\<forall>j\<ge>optind (getopt s2). argv ! j = argv' ! j" by simp
  from cl_parser_agree [OF len this, of ext]
    cl_parser_step [OF g ne, of ext] cl_parser_step [OF g' ne, of ext] Continue
  show ?thesis by simp
qed

lemma of_char_image_iff: "(of_char x :: int) \<in> of_char ` S \<longleftrightarrow> x \<in> S"
  by (rule inj_image_mem_iff) (rule inj_of_char)

lemma long_option_short_form:
  assumes "p \<in> set long_options"
  shows "has_arg p = no_argument \<Longrightarrow> val p \<in> of_char ` set ''tXhdLRBr''"
    and "has_arg p = required_argument \<Longrightarrow> val p \<in> of_char ` set ''plseoNK''"
    and "has_arg p = optional_argument \<Longrightarrow> val p = of_char CHR ''f''"
  using assms unfolding long_options_def by auto

lemma short_long_flag:
  assumes p: "p \<in> set long_options" "has_arg p \<noteq> required_argument" "val p = of_char x"
    and s: "nextchar (getopt s) = []" "0 < optind (getopt s)" "optind (getopt s) < length argv"
    and a: "argv ! optind (getopt s) = [CHR ''-'', x]"
  shows "cl_parser ext argv s = cl_parser ext (argv[optind (getopt s) := ''--'' @ name p]) s"
proof -
  let ?i = "optind (getopt s)"
  let ?argv' = "argv[?i := ''--'' @ name p]"
  let ?d = "(getopt s)\<lparr>optarg := None, optind := ?i + 1, nextchar := []\<rparr>"
  have g': "getopt_long ?argv' optstring long_options (getopt s) = (val p, ?d, [])"
    using scan_long_flag [OF p(1,2) s(1,2), of ?argv'] s(3) by simp
  have g: "getopt_long argv optstring long_options (getopt s) = (val p, ?d, [])"
  proof (cases "has_arg p")
    case no_argument
    from long_option_short_form(1) [OF p(1) this] p(3) have "x \<in> set ''tXhdLRBr''"
      by (simp add: of_char_image_iff del: set_simps)
    from scan_short_flag [OF this s a] p(3) show ?thesis by simp
  next
    case required_argument
    with p(2) show ?thesis by simp
  next
    case optional_argument
    from long_option_short_form(3) [OF p(1) this] p(3) have x: "x = CHR ''f''"
      by (metis of_char_eq_iff)
    from scan_short_optional_bare [OF s a [unfolded x]] p(3) x show ?thesis by simp
  qed
  from long_val_positive [OF p(1)] have ne: "val p \<noteq> - 1" by simp
  show ?thesis
    by (rule same_step_same_outcome [OF g g' ne]) simp_all
qed

lemma short_long_value:
  assumes p: "p \<in> set long_options" "has_arg p = required_argument" "val p = of_char x"
    and s: "nextchar (getopt s) = []" "0 < optind (getopt s)" "optind (getopt s) + 1 < length argv"
    and a: "argv ! optind (getopt s) = [CHR ''-'', x]"
  shows "cl_parser ext argv s = cl_parser ext (argv[optind (getopt s) := ''--'' @ name p]) s"
proof -
  let ?i = "optind (getopt s)"
  let ?argv' = "argv[?i := ''--'' @ name p]"
  let ?d = "(getopt s)\<lparr>optarg := Some (argv ! (?i + 1)), optind := ?i + 2, nextchar := []\<rparr>"
  have g': "getopt_long ?argv' optstring long_options (getopt s) = (val p, ?d, [])"
    using scan_long_value [OF p(1,2) s(1,2), of ?argv'] s(3) by simp
  from long_option_short_form(2) [OF p(1,2)] p(3) have "x \<in> set ''plseoNK''"
    by (simp add: of_char_image_iff del: set_simps)
  from scan_short_value [OF this s a] p(3)
  have g: "getopt_long argv optstring long_options (getopt s) = (val p, ?d, [])" by simp
  from long_val_positive [OF p(1)] have ne: "val p \<noteq> - 1" by simp
  show ?thesis
    by (rule same_step_same_outcome [OF g g' ne]) simp_all
qed

lemma short_long_attached:
  assumes p: "p \<in> set long_options" "has_arg p \<noteq> no_argument" "val p = of_char x"
    and s: "nextchar (getopt s) = []" "0 < optind (getopt s)" "optind (getopt s) < length argv"
    and a: "argv ! optind (getopt s) = CHR ''-'' # x # v" and v: "v \<noteq> []"
  shows "cl_parser ext argv s =
           cl_parser ext (argv[optind (getopt s) := ''--'' @ name p @ CHR ''='' # v]) s"
proof -
  let ?i = "optind (getopt s)"
  let ?argv' = "argv[?i := ''--'' @ name p @ CHR ''='' # v]"
  let ?d = "(getopt s)\<lparr>optarg := Some v, optind := ?i + 1, nextchar := []\<rparr>"
  have g': "getopt_long ?argv' optstring long_options (getopt s) = (val p, ?d, [])"
    using scan_long_attached [OF p(1,2) s(1,2), of ?argv' v] s(3) by simp
  have "x \<in> set ''plseoNKf''"
  proof (cases "has_arg p")
    case no_argument
    with p(2) show ?thesis by simp
  next
    case required_argument
    from long_option_short_form(2) [OF p(1) this] p(3) have "x \<in> set ''plseoNK''"
      by (simp add: of_char_image_iff del: set_simps)
    then show ?thesis by auto
  next
    case optional_argument
    from long_option_short_form(3) [OF p(1) this] p(3) have "x = CHR ''f''"
      by (metis of_char_eq_iff)
    then show ?thesis by simp
  qed
  from scan_short_attached [OF this v s a] p(3)
  have g: "getopt_long argv optstring long_options (getopt s) = (val p, ?d, [])" by simp
  from long_val_positive [OF p(1)] have ne: "val p \<noteq> - 1" by simp
  show ?thesis
    by (rule same_step_same_outcome [OF g g' ne]) simp_all
qed

lemma every_short_option_has_a_long_form:
  "map val long_options = map of_char (filter (\<lambda>c. c \<noteq> CHR '':'') (tl optstring))"
  by (simp add: long_options_def optstring_def)

subsection \<open>Short and long forms\<close>

text \<open>
  Claim C9. The option characters of the option string are, in order, the \<^verbatim>\<open>val\<close>
  members of the entries of the table, and for an entry \<open>p\<close> with \<^verbatim>\<open>val\<close> the character \<open>x\<close>,
  in any scanner state that stands at the start of an argv element, replacing the short
  form in that element by the long form leaves the result of the parser unchanged, with
  the options structure, the global format, the output, the exit status or the index
  returned all equal: \<^verbatim>\<open>-x\<close> against \<^verbatim>\<open>--name\<close> for an option without a required
  value; \<^verbatim>\<open>-x\<close> against \<^verbatim>\<open>--name\<close>, each followed by the value in the next
  element, for an option that requires one; and \<^verbatim>\<open>-xV\<close> against \<^verbatim>\<open>--name=V\<close>, with
  \<open>V\<close> not empty, for an option that takes a value.
\<close>

theorem short_and_long_forms_agree:
  "(p \<in> set long_options \<and> val p = of_char x
      \<and> nextchar (getopt s) = [] \<and> 0 < optind (getopt s) \<longrightarrow>
      (has_arg p \<noteq> required_argument \<and> optind (getopt s) < length argv
         \<and> argv ! optind (getopt s) = [CHR ''-'', x] \<longrightarrow>
       cl_parser ext argv s = cl_parser ext (argv[optind (getopt s) := ''--'' @ name p]) s)
    \<and> (has_arg p = required_argument \<and> optind (getopt s) + 1 < length argv
         \<and> argv ! optind (getopt s) = [CHR ''-'', x] \<longrightarrow>
       cl_parser ext argv s = cl_parser ext (argv[optind (getopt s) := ''--'' @ name p]) s)
    \<and> (has_arg p \<noteq> no_argument \<and> v \<noteq> [] \<and> optind (getopt s) < length argv
         \<and> argv ! optind (getopt s) = CHR ''-'' # x # v \<longrightarrow>
       cl_parser ext argv s =
         cl_parser ext (argv[optind (getopt s) := ''--'' @ name p @ CHR ''='' # v]) s))
   \<and> map val long_options = map of_char (filter (\<lambda>c. c \<noteq> CHR '':'') (tl optstring))"
  using short_long_flag [of p x s argv ext] short_long_value [of p x s argv ext]
    short_long_attached [of p x s argv v ext] every_short_option_has_a_long_form
  by blast

theorem short_and_long_forms_agree_witness:
  "\<lparr>name = ''pid'', has_arg = required_argument, val = of_char CHR ''p''\<rparr> \<in> set long_options
   \<and> val \<lparr>name = ''pid'', has_arg = required_argument, val = of_char CHR ''p''\<rparr> = of_char CHR ''p''
   \<and> nextchar (getopt (initial_state zero_options 0)) = []
   \<and> 0 < optind (getopt (initial_state zero_options 0))
   \<and> has_arg \<lparr>name = ''pid'', has_arg = required_argument, val = of_char CHR ''p''\<rparr> = required_argument
   \<and> optind (getopt (initial_state zero_options 0)) + 1 < length [''vltrace'', ''-p'', ''42'', ''ls'']
   \<and> [''vltrace'', ''-p'', ''42'', ''ls''] ! optind (getopt (initial_state zero_options 0)) = ''-p''
   \<and> cl_parser sample_externals [''vltrace'', ''-p'', ''42'', ''ls''] (initial_state zero_options 0) =
       cl_parser sample_externals [''vltrace'', ''--pid'', ''42'', ''ls''] (initial_state zero_options 0)"
  using short_and_long_forms_agree [of
          "\<lparr>name = ''pid'', has_arg = required_argument, val = of_char CHR ''p''\<rparr>" "CHR ''p''"
          "initial_state zero_options 0" "[''vltrace'', ''-p'', ''42'', ''ls'']" sample_externals "''x''"]
    in_long_options(1)
  by (simp add: initial_state_def getopt_initial_def)


lemma missing_cluster_value:
  assumes "x \<in> set ''plseoNK''"
    and "nextchar (getopt s) = [x]" and "0 < optind (getopt s)"
    and "optind (getopt s) + 1 = length argv"
  shows "cl_parser ext argv s =
           Exited EXIT_FAILURE
             (s\<lparr>getopt := (getopt s)\<lparr>optarg := None, optind := optind (getopt s) + 1,
                                     optopt := of_char x, nextchar := []\<rparr>,
                written := written s @ print_if (opterr (getopt s)) (Getopt_requires_argument x)
                             @ [Fprint_help Stderr]\<rparr>)"
proof -
  from assms(4) have ne: "argv \<noteq> []" by auto
  from assms(2) have n: "nextchar (getopt s) \<noteq> []" by simp
  have g: "getopt_long argv optstring long_options (getopt s) =
             (of_char CHR ''?'',
              (getopt s)\<lparr>optarg := None, optind := optind (getopt s) + 1,
                          optopt := of_char x, nextchar := []\<rparr>,
              print_if (opterr (getopt s)) (Getopt_requires_argument x))"
    using short_missing [OF _ _ assms(1), of "(getopt s)\<lparr>optarg := None\<rparr>" argv "opterr (getopt s)"]
      assms(2,4)
    by (simp add: inside_short [OF n assms(3) ne])
  show ?thesis
    using cl_parser_step [OF g of_char_not_minus_one, of ext]
    by (simp add: handle_question_mark emit_def)
qed

lemma long_missing_found:
  assumes "find_long_option long_options nm = Found p" and "CHR ''='' \<notin> set nm"
    and "nextchar d = nm" and "has_arg p = required_argument"
    and "length argv \<le> optind d + 1"
  shows "process_long_option argv os long_options pe d =
           (of_char CHR ''?'', d\<lparr>optind := optind d + 1, nextchar := [], optopt := val p\<rparr>,
            print_if pe (Getopt_long_requires_argument (name p)))"
  using assms(3-)
  by (simp add: process_long_option_def Let_def os_def optstring_def assms(1)
        name_split [OF assms(2)])

lemma missing_abbreviated_value:
  assumes "find_long_option long_options nm = Found p" and "has_arg p = required_argument"
    and "nm \<noteq> []" and "CHR ''='' \<notin> set nm"
    and "nextchar (getopt s) = []" and "0 < optind (getopt s)"
    and "optind (getopt s) + 1 = length argv"
    and "argv ! optind (getopt s) = ''--'' @ nm"
  shows "cl_parser ext argv s =
           Exited EXIT_FAILURE
             (s\<lparr>getopt := (getopt s)\<lparr>optarg := None, optind := optind (getopt s) + 1,
                                     optopt := val p, nextchar := []\<rparr>,
                written := written s
                             @ print_if (opterr (getopt s)) (Getopt_long_requires_argument (name p))
                             @ [Fprint_help Stderr]\<rparr>)"
proof -
  from assms(3) obtain x r where n: "nm = x # r" by (cases nm) auto
  with assms(8) have a: "argv ! optind (getopt s) = CHR ''-'' # CHR ''-'' # x # r" by simp
  from assms(7) have lt: "optind (getopt s) < length argv" by simp
  have g: "getopt_long argv optstring long_options (getopt s) =
             (of_char CHR ''?'',
              (getopt s)\<lparr>optarg := None, optind := optind (getopt s) + 1,
                          optopt := val p, nextchar := []\<rparr>,
              print_if (opterr (getopt s)) (Getopt_long_requires_argument (name p)))"
    using long_missing_found [OF assms(1,4) _ assms(2),
            of "(getopt s)\<lparr>optarg := None, nextchar := x # r\<rparr>" argv "opterr (getopt s)"]
      n assms(7)
    by (simp add: boundary_long [OF assms(5,6) lt a])
  show ?thesis
    using cl_parser_step [OF g of_char_not_minus_one, of ext]
    by (simp add: handle_question_mark emit_def)
qed

lemma question_mark_is_fatal:
  assumes "getopt_long argv optstring long_options (getopt s) = (of_char CHR ''?'', d, es)"
  shows "cl_parser ext argv s =
           Exited EXIT_FAILURE (s\<lparr>getopt := d, written := written s @ es @ [Fprint_help Stderr]\<rparr>)"
  using cl_parser_step [OF assms of_char_not_minus_one, of ext]
  by (simp add: handle_question_mark emit_def)

lemma scan_short_flag_in_cluster:
  assumes "x \<in> set ''tXhdLRBr''" and "r \<noteq> []"
    and "nextchar d = []" and "0 < optind d" and "optind d < length argv"
    and "argv ! optind d = CHR ''-'' # x # r"
  shows "getopt_long argv optstring long_options d =
           (of_char x, d\<lparr>optarg := None, nextchar := r\<rparr>, [])"
proof -
  from assms(1) have "x \<noteq> CHR ''-''" by auto
  from boundary_short [OF assms(3,4,5,6) this]
  show ?thesis
    using short_flag [OF _ assms(1), of "d\<lparr>optarg := None, nextchar := x # r\<rparr>" r argv "opterr d"]
      assms(2)
    by simp
qed

lemma missing_value_runs:
  "cl_parser ext [prog, ''-p''] (initial_state c fmt) =
     Exited EXIT_FAILURE
       \<lparr>clo = c, Out_lf_fmt = fmt,
          getopt = getopt_initial\<lparr>optind := 2, optopt := of_char CHR ''p''\<rparr>,
          written = [Getopt_requires_argument CHR ''p'', Fprint_help Stderr]\<rparr>"
  "cl_parser ext [prog, ''-tp''] (initial_state c fmt) =
     Exited EXIT_FAILURE
       \<lparr>clo = c\<lparr>timestamp := True\<rparr>, Out_lf_fmt = fmt,
          getopt = getopt_initial\<lparr>optind := 2, optopt := of_char CHR ''p''\<rparr>,
          written = [Getopt_requires_argument CHR ''p'', Fprint_help Stderr]\<rparr>"
  "cl_parser ext [prog, ''--pi''] (initial_state c fmt) =
     Exited EXIT_FAILURE
       \<lparr>clo = c, Out_lf_fmt = fmt,
          getopt = getopt_initial\<lparr>optind := 2, optopt := of_char CHR ''p''\<rparr>,
          written = [Getopt_long_requires_argument ''pid'', Fprint_help Stderr]\<rparr>"
proof -
  show "cl_parser ext [prog, ''-p''] (initial_state c fmt) =
     Exited EXIT_FAILURE
       \<lparr>clo = c, Out_lf_fmt = fmt,
          getopt = getopt_initial\<lparr>optind := 2, optopt := of_char CHR ''p''\<rparr>,
          written = [Getopt_requires_argument CHR ''p'', Fprint_help Stderr]\<rparr>"
    using missing_short_value [of "CHR ''p''" "initial_state c fmt" "[prog, ''-p'']" ext]
    by (simp add: initial_state_def getopt_initial_def print_if_def)
  let ?argv = "[prog, ''-tp'']"
  let ?s1 = "\<lparr>clo = c\<lparr>timestamp := True\<rparr>, Out_lf_fmt = fmt,
               getopt = getopt_initial\<lparr>nextchar := ''p''\<rparr>, written = []\<rparr>"
  have g: "getopt_long ?argv optstring long_options (getopt (initial_state c fmt)) =
             (of_char CHR ''t'', getopt_initial\<lparr>nextchar := ''p''\<rparr>, [])"
    using scan_short_flag_in_cluster [of "CHR ''t''" "''p''" getopt_initial ?argv]
    by (simp add: getopt_initial_def initial_state_def)
  have 1: "cl_parser ext ?argv (initial_state c fmt) = cl_parser ext ?argv ?s1"
    using cl_parser_step [OF g of_char_not_minus_one, of ext]
    by (simp add: handle_timestamp emit_def initial_state_def)
  have 2: "cl_parser ext ?argv ?s1 =
     Exited EXIT_FAILURE
       \<lparr>clo = c\<lparr>timestamp := True\<rparr>, Out_lf_fmt = fmt,
          getopt = getopt_initial\<lparr>optind := 2, optopt := of_char CHR ''p''\<rparr>,
          written = [Getopt_requires_argument CHR ''p'', Fprint_help Stderr]\<rparr>"
    using missing_cluster_value [of "CHR ''p''" ?s1 ?argv ext]
    by (simp add: getopt_initial_def print_if_def)
  from 1 2 show "cl_parser ext [prog, ''-tp''] (initial_state c fmt) =
     Exited EXIT_FAILURE
       \<lparr>clo = c\<lparr>timestamp := True\<rparr>, Out_lf_fmt = fmt,
          getopt = getopt_initial\<lparr>optind := 2, optopt := of_char CHR ''p''\<rparr>,
          written = [Getopt_requires_argument CHR ''p'', Fprint_help Stderr]\<rparr>"
    by simp
  have f: "find_long_option long_options ''pi'' =
             Found \<lparr>name = ''pid'', has_arg = required_argument, val = of_char CHR ''p''\<rparr>"
    by (simp add: find_long_option_def long_options_def abbreviates_def)
  show "cl_parser ext [prog, ''--pi''] (initial_state c fmt) =
     Exited EXIT_FAILURE
       \<lparr>clo = c, Out_lf_fmt = fmt,
          getopt = getopt_initial\<lparr>optind := 2, optopt := of_char CHR ''p''\<rparr>,
          written = [Getopt_long_requires_argument ''pid'', Fprint_help Stderr]\<rparr>"
    using missing_abbreviated_value [OF f, of "initial_state c fmt" "[prog, ''--pi'']" ext]
    by (simp add: initial_state_def getopt_initial_def print_if_def)
qed

subsection \<open>A required value that is missing: every form\<close>

text \<open>
  Claim C5. An option that requires a value and has none behind it is fatal in every form
  it can take. The option character \<open>x\<close> (one of \<^verbatim>\<open>p l s e o N K\<close>) can be the whole
  last element of argv (\<^verbatim>\<open>-x\<close>), or the last character of a cluster in the last
  element (\<^verbatim>\<open>-tx\<close>, where the scan stands inside the element with \<open>x\<close> left to read);
  the long option can be given by its full name or by any abbreviation the table lookup
  resolves to an entry that requires a value. In each case \<^verbatim>\<open>getopt_long\<close> writes its
  diagnostic that the option requires an argument (while \<^verbatim>\<open>opterr\<close> is set, as it is
  from the start) and returns \<^verbatim>\<open>?\<close>, and the parser writes the usage text to the error
  stream and ends the process with \<^verbatim>\<open>EXIT_FAILURE\<close>, the options structure being as it
  was before the option. More generally every \<^verbatim>\<open>?\<close> from the scanner ends the process
  this way, and the scanner never returns one of these options with a null
  \<^verbatim>\<open>optarg\<close>, so no default takes the place of a value. For the command lines
  \<^verbatim>\<open>-p\<close>, \<^verbatim>\<open>-tp\<close> and \<^verbatim>\<open>--pi\<close>, \<^verbatim>\<open>pid\<close> is untouched.
\<close>

theorem missing_value_is_fatal:
  "(x \<in> set ''plseoNK'' \<and> nextchar (getopt s) = [] \<and> 0 < optind (getopt s)
      \<and> optind (getopt s) + 1 = length argv \<and> argv ! optind (getopt s) = [CHR ''-'', x] \<longrightarrow>
    cl_parser ext argv s =
      Exited EXIT_FAILURE
        (s\<lparr>getopt := (getopt s)\<lparr>optarg := None, optind := optind (getopt s) + 1,
                                optopt := of_char x, nextchar := []\<rparr>,
           written := written s @ print_if (opterr (getopt s)) (Getopt_requires_argument x)
                        @ [Fprint_help Stderr]\<rparr>))
   \<and> (x \<in> set ''plseoNK'' \<and> nextchar (getopt s) = [x] \<and> 0 < optind (getopt s)
        \<and> optind (getopt s) + 1 = length argv \<longrightarrow>
      cl_parser ext argv s =
        Exited EXIT_FAILURE
          (s\<lparr>getopt := (getopt s)\<lparr>optarg := None, optind := optind (getopt s) + 1,
                                  optopt := of_char x, nextchar := []\<rparr>,
             written := written s @ print_if (opterr (getopt s)) (Getopt_requires_argument x)
                          @ [Fprint_help Stderr]\<rparr>))
   \<and> (p \<in> set long_options \<and> has_arg p = required_argument
        \<and> nextchar (getopt s) = [] \<and> 0 < optind (getopt s)
        \<and> optind (getopt s) + 1 = length argv \<and> argv ! optind (getopt s) = ''--'' @ name p \<longrightarrow>
      cl_parser ext argv s =
        Exited EXIT_FAILURE
          (s\<lparr>getopt := (getopt s)\<lparr>optarg := None, optind := optind (getopt s) + 1,
                                  optopt := val p, nextchar := []\<rparr>,
             written := written s
                          @ print_if (opterr (getopt s)) (Getopt_long_requires_argument (name p))
                          @ [Fprint_help Stderr]\<rparr>))
   \<and> (find_long_option long_options nm = Found p \<and> has_arg p = required_argument
        \<and> nm \<noteq> [] \<and> CHR ''='' \<notin> set nm
        \<and> nextchar (getopt s) = [] \<and> 0 < optind (getopt s)
        \<and> optind (getopt s) + 1 = length argv \<and> argv ! optind (getopt s) = ''--'' @ nm \<longrightarrow>
      cl_parser ext argv s =
        Exited EXIT_FAILURE
          (s\<lparr>getopt := (getopt s)\<lparr>optarg := None, optind := optind (getopt s) + 1,
                                  optopt := val p, nextchar := []\<rparr>,
             written := written s
                          @ print_if (opterr (getopt s)) (Getopt_long_requires_argument (name p))
                          @ [Fprint_help Stderr]\<rparr>))
   \<and> (getopt_long argv optstring long_options (getopt s) = (of_char CHR ''?'', d, es) \<longrightarrow>
      cl_parser ext argv s =
        Exited EXIT_FAILURE
          (s\<lparr>getopt := d, written := written s @ es @ [Fprint_help Stderr]\<rparr>))
   \<and> (getopt_long argv optstring long_options (getopt s) = (k, d, es)
        \<and> k \<in> of_char ` set ''plseoNK'' \<longrightarrow> optarg d \<noteq> None)
   \<and> cl_parser ext [prog, ''-p''] (initial_state c fmt) =
       Exited EXIT_FAILURE
         \<lparr>clo = c, Out_lf_fmt = fmt,
            getopt = getopt_initial\<lparr>optind := 2, optopt := of_char CHR ''p''\<rparr>,
            written = [Getopt_requires_argument CHR ''p'', Fprint_help Stderr]\<rparr>
   \<and> cl_parser ext [prog, ''-tp''] (initial_state c fmt) =
       Exited EXIT_FAILURE
         \<lparr>clo = c\<lparr>timestamp := True\<rparr>, Out_lf_fmt = fmt,
            getopt = getopt_initial\<lparr>optind := 2, optopt := of_char CHR ''p''\<rparr>,
            written = [Getopt_requires_argument CHR ''p'', Fprint_help Stderr]\<rparr>
   \<and> cl_parser ext [prog, ''--pi''] (initial_state c fmt) =
       Exited EXIT_FAILURE
         \<lparr>clo = c, Out_lf_fmt = fmt,
            getopt = getopt_initial\<lparr>optind := 2, optopt := of_char CHR ''p''\<rparr>,
            written = [Getopt_long_requires_argument ''pid'', Fprint_help Stderr]\<rparr>"
  apply (intro conjI impI)
  subgoal by (elim conjE) (rule missing_short_value; assumption)
  subgoal by (elim conjE) (rule missing_cluster_value; assumption)
  subgoal by (elim conjE) (rule missing_long_value; assumption)
  subgoal by (elim conjE) (rule missing_abbreviated_value; assumption)
  subgoal by (rule question_mark_is_fatal)
  subgoal using getopt_long_result [of argv "getopt s" k d es] by (simp add: value_options_def)
  subgoal by (rule missing_value_runs)
  subgoal by (rule missing_value_runs)
  subgoal by (rule missing_value_runs)
  done

theorem missing_value_is_fatal_witness:
  "CHR ''o'' \<in> set ''plseoNK''
   \<and> nextchar (getopt (initial_state zero_options 0)) = []
   \<and> 0 < optind (getopt (initial_state zero_options 0))
   \<and> optind (getopt (initial_state zero_options 0)) + 1 = length [''vltrace'', ''-o'']
   \<and> [''vltrace'', ''-o''] ! optind (getopt (initial_state zero_options 0)) = [CHR ''-'', CHR ''o'']
   \<and> cl_parser sample_externals [''vltrace'', ''-o''] (initial_state zero_options 0) =
       Exited EXIT_FAILURE
         \<lparr>clo = zero_options, Out_lf_fmt = 0,
            getopt = getopt_initial\<lparr>optind := 2, optopt := of_char CHR ''o''\<rparr>,
            written = [Getopt_requires_argument CHR ''o'', Fprint_help Stderr]\<rparr>
   \<and> nextchar (getopt \<lparr>clo = zero_options\<lparr>timestamp := True\<rparr>, Out_lf_fmt = 0,
                         getopt = getopt_initial\<lparr>nextchar := ''o''\<rparr>, written = []\<rparr>) = ''o''
   \<and> cl_parser sample_externals [''vltrace'', ''-to'']
         \<lparr>clo = zero_options\<lparr>timestamp := True\<rparr>, Out_lf_fmt = 0,
            getopt = getopt_initial\<lparr>nextchar := ''o''\<rparr>, written = []\<rparr> =
       Exited EXIT_FAILURE
         \<lparr>clo = zero_options\<lparr>timestamp := True\<rparr>, Out_lf_fmt = 0,
            getopt = getopt_initial\<lparr>optind := 2, optopt := of_char CHR ''o''\<rparr>,
            written = [Getopt_requires_argument CHR ''o'', Fprint_help Stderr]\<rparr>"
  using missing_value_is_fatal [of "CHR ''o''" "initial_state zero_options 0" "[''vltrace'', ''-o'']"
          sample_externals
          "\<lparr>name = ''pid'', has_arg = required_argument, val = of_char CHR ''p''\<rparr>" "''pi''"
          getopt_initial "[]" 0 "''vltrace''" zero_options 0]
    missing_value_is_fatal [of "CHR ''o''"
          "\<lparr>clo = zero_options\<lparr>timestamp := True\<rparr>, Out_lf_fmt = 0,
             getopt = getopt_initial\<lparr>nextchar := ''o''\<rparr>, written = []\<rparr>"
          "[''vltrace'', ''-to'']" sample_externals
          "\<lparr>name = ''pid'', has_arg = required_argument, val = of_char CHR ''p''\<rparr>" "''pi''"
          getopt_initial "[]" 0 "''vltrace''" zero_options 0]
  by (simp add: initial_state_def getopt_initial_def print_if_def)


end
